theory Spec2Isabelle
  imports Main "HOL-Library.Word" "HOL-Library.Signed_Division"
begin

section \<open>Locations and tokens (lexer.h)\<close>

record Location =
  Name :: string
  Line :: int
  Column :: int

datatype Kind =
    FUNC | RETURN | WHILE | IF | ELSE
  | LPAREN | RPAREN | LBRACE | RBRACE | COLON | SEMI | EQUAL | COMMA
  | PLUS | MINUS | MULTIPLY | DIVIDE | MODULO
  | DOUBLE_EQUAL | NOT_EQUAL | GREATER | GREATER_OR_EQUAL | SMALLER | SMALLER_OR_EQUAL
  | INT_token | STRING | IDENT | END

text \<open>
  The kind \<open>INT\<close> is written \<open>INT_token\<close>.  The payload union of a token: \<open>IntValue\<close> or
  \<open>StringValue\<close>, or nothing.
\<close>

datatype Payload = NoValue | IntValue "64 word" | StringValue string

record Token =
  loc :: Location
  kind :: Kind
  val :: Payload

section \<open>Errors\<close>

text \<open>
  The C++ sources abort an operation by throwing (\<open>RuntimeError\<close>, \<open>ParserError\<close>), by a
  failed \<open>assert\<close>, or by running into behaviour the language leaves undefined
  (reading past a buffer, popping an empty vector, dividing by zero).  Every such exit
  is a value of the type \<open>error\<close>; an operation returns \<open>error + 'a\<close>.

  What a \<open>ParserError\<close> message says it was expecting: a token kind (from \<open>Check\<close>) or
  the word "term" (from \<open>ParseTermExpr\<close>).
\<close>

datatype Expected = ExpectingKind Kind | ExpectingTerm

text \<open>
  \<open>ParserError loc tk e\<close> stands for the exception whose message is
  "[loc] unexpected tk, expecting e"; the printers of tokens and kinds are not part of
  the sources at hand, so the message is kept by its parts.  \<open>TypeMismatch\<close> is the fatal
  type error of the virtual machine for an operand of the wrong kind.  \<open>AssertFailed\<close> is
  a failed \<open>assert\<close>.  \<open>Undefined\<close> is undefined behaviour or a resource failure of the
  C++ program, with a description for the reader.
\<close>

datatype error =
    RuntimeError string
  | ParserError Location Token Expected
  | TypeMismatch string
  | AssertFailed string
  | Undefined string

definition bindE :: "error + 'a \<Rightarrow> ('a \<Rightarrow> error + 'b) \<Rightarrow> error + 'b" where
  "bindE m f = (case m of Inl e \<Rightarrow> Inl e | Inr x \<Rightarrow> f x)"

section \<open>The virtual machine (interp.cpp)\<close>

subsection \<open>Values, state and program\<close>

type_synonym size_t = "64 word"
type_synonym int64_t = "64 word"
type_synonym unsigned = "32 word"

text \<open>A \<open>RuntimeFn\<close> is a pointer to a native function; only its identity matters.\<close>

type_synonym RuntimeFn = "64 word"

text \<open>\<open>Value\<close>: the kind tag together with the live member of the union \<open>Val\<close>.\<close>

datatype Value = Val_Proto RuntimeFn | Val_Addr size_t | Val_Int int64_t

text \<open>The stack is a vector: the top of the stack is the last element of the list.\<close>

record Interp =
  pc :: size_t
  stack :: "Value list"

datatype Opcode =
    PUSH_FUNC | PUSH_PROTO | PUSH_INT | PEEK | POP | CALL
  | ADD | SUB | MUL | DIV | MOD
  | DEQ | NEQ | SM | SMEQ | GR | GREQ
  | RET | JUMP_FALSE | JUMP | STOP

text \<open>The program is a flat buffer of bytes, addressed by byte offset.\<close>

type_synonym Program = "8 word list"

text \<open>
  What the interpreter uses and the sources at hand do not define, taken as parameters:
  the size in bytes of an encoded \<open>Opcode\<close> and the enumerator each encoding stands for
  (\<open>None\<close> for a value that is no enumerator), the native function behind each
  \<open>RuntimeFn\<close> (it receives the interpreter and may throw), and the truth value of a
  \<open>Value\<close> that is not an integer.
\<close>

record Extern =
  Opcode_size :: nat
  Opcode_of :: "8 word list \<Rightarrow> Opcode option"
  Native :: "RuntimeFn \<Rightarrow> Interp \<Rightarrow> error + Interp"
  Truth_other :: "Value \<Rightarrow> bool"

subsection \<open>Decoding\<close>

text \<open>A value is stored in the byte order of the machine, taken to be little-endian.\<close>

fun from_bytes :: "8 word list \<Rightarrow> 'a::len word" where
  "from_bytes [] = 0"
| "from_bytes (b # bs) = ucast b + 256 * from_bytes bs"

text \<open>
  Modelled from the spec: \<open>Program::Read<T>\<close> (program.h is missing).  It reads a value
  of a statically known type starting at the program counter, copies it out and advances
  the counter past it.  A read that does not fit in the buffer is undefined in C++.
  The sizes are those of an LP64 machine: \<open>size_t\<close>, \<open>int64_t\<close> and a function pointer
  take 8 bytes, \<open>unsigned\<close> takes 4.
\<close>

definition Read_raw :: "nat \<Rightarrow> Program \<Rightarrow> Interp \<Rightarrow> error + (8 word list \<times> Interp)" where
  "Read_raw n prog st =
     (if unat (pc st) + n \<le> length prog
      then Inr (take n (drop (unat (pc st)) prog), st\<lparr>pc := pc st + of_nat n\<rparr>)
      else Inl (Undefined ''read past the end of the program''))"

definition Read_Opcode :: "Extern \<Rightarrow> Program \<Rightarrow> Interp \<Rightarrow> error + (Opcode option \<times> Interp)" where
  "Read_Opcode X prog st =
     bindE (Read_raw (Opcode_size X) prog st) (\<lambda>(bs, st'). Inr (Opcode_of X bs, st'))"

definition Read_size_t :: "Program \<Rightarrow> Interp \<Rightarrow> error + (size_t \<times> Interp)" where
  "Read_size_t prog st = bindE (Read_raw 8 prog st) (\<lambda>(bs, st'). Inr (from_bytes bs, st'))"

definition Read_int64_t :: "Program \<Rightarrow> Interp \<Rightarrow> error + (int64_t \<times> Interp)" where
  "Read_int64_t prog st = bindE (Read_raw 8 prog st) (\<lambda>(bs, st'). Inr (from_bytes bs, st'))"

definition Read_RuntimeFn :: "Program \<Rightarrow> Interp \<Rightarrow> error + (RuntimeFn \<times> Interp)" where
  "Read_RuntimeFn prog st = bindE (Read_raw 8 prog st) (\<lambda>(bs, st'). Inr (from_bytes bs, st'))"

definition Read_unsigned :: "Program \<Rightarrow> Interp \<Rightarrow> error + (unsigned \<times> Interp)" where
  "Read_unsigned prog st = bindE (Read_raw 4 prog st) (\<lambda>(bs, st'). Inr (from_bytes bs, st'))"

subsection \<open>Stack primitives\<close>

text \<open>
  Modelled from the spec: \<open>Push\<close>, \<open>Pop\<close>, \<open>PopInt\<close> and \<open>PopAddr\<close> (interp.h is missing).
  \<open>Push\<close> puts a value on top of the operand stack; \<open>Pop\<close> removes the top value and
  returns it; \<open>PopInt\<close> and \<open>PopAddr\<close> do the same and require the kind \<open>Integer\<close>, or
  \<open>Address\<close>, any other kind being a fatal type error.  Removing the top of an empty
  vector is undefined in C++.
\<close>

definition Push :: "Value \<Rightarrow> Interp \<Rightarrow> Interp" where
  "Push v st = st\<lparr>stack := stack st @ [v]\<rparr>"

definition Pop :: "Interp \<Rightarrow> error + (Value \<times> Interp)" where
  "Pop st =
     (if stack st = [] then Inl (Undefined ''pop from an empty stack'')
      else Inr (last (stack st), st\<lparr>stack := butlast (stack st)\<rparr>))"

definition PopInt :: "Interp \<Rightarrow> error + (int64_t \<times> Interp)" where
  "PopInt st =
     bindE (Pop st) (\<lambda>(v, st').
       case v of Val_Int i \<Rightarrow> Inr (i, st') | _ \<Rightarrow> Inl (TypeMismatch ''integer''))"

definition PopAddr :: "Interp \<Rightarrow> error + (size_t \<times> Interp)" where
  "PopAddr st =
     bindE (Pop st) (\<lambda>(v, st').
       case v of Val_Addr a \<Rightarrow> Inr (a, st') | _ \<Rightarrow> Inl (TypeMismatch ''address''))"

text \<open>
  Modelled from the spec: \<open>Value::operator bool\<close> (interp.h is missing).  The value
  \<open>Integer(0)\<close> is false and every other integer is true; for the other kinds the spec
  leaves the test open, so it is the parameter \<open>Truth_other\<close>.
\<close>

definition to_bool :: "Extern \<Rightarrow> Value \<Rightarrow> bool" where
  "to_bool X v = (case v of Val_Int i \<Rightarrow> i \<noteq> 0 | _ \<Rightarrow> Truth_other X v)"

text \<open>
  \<open>stack_.resize(stack_.size() - n)\<close> with \<open>n\<close> of type \<open>unsigned\<close>: the vector is cut
  to its first \<open>size - n\<close> elements.  The new size is computed in \<open>size_t\<close>: when \<open>n\<close>
  exceeds the size it wraps around to at least \<open>2^64 - 2^32\<close>, more than a vector can
  hold, and \<open>resize\<close> throws \<open>std::length_error\<close>.
\<close>

definition resize_minus :: "unsigned \<Rightarrow> Interp \<Rightarrow> error + Interp" where
  "resize_minus n st =
     (if unat n \<le> length (stack st)
      then Inr (st\<lparr>stack := take (length (stack st) - unat n) (stack st)\<rparr>)
      else Inl (Undefined ''resize beyond the maximal size of a vector''))"

subsection \<open>Arithmetic on \<open>int64_t\<close>\<close>

text \<open>
  The test the \<open>ADD\<close> and \<open>SUB\<close> cases apply to the two operands and the result:
  \<open>(rhs < 0 && lhs < 0 && result > 0) || (rhs > 0 && lhs > 0 && result < 0)\<close>.
\<close>

definition overflow_test :: "int64_t \<Rightarrow> int64_t \<Rightarrow> int64_t \<Rightarrow> bool" where
  "overflow_test rhs lhs result \<longleftrightarrow>
     (rhs <s 0 \<and> lhs <s 0 \<and> 0 <s result) \<or> (0 <s rhs \<and> 0 <s lhs \<and> result <s 0)"

text \<open>\<open>std::to_string\<close> of an \<open>int64_t\<close>.\<close>

fun digits :: "nat \<Rightarrow> string" where
  "digits n =
     (if n < 10 then [char_of (48 + n)]
      else digits (n div 10) @ [char_of (48 + n mod 10)])"

declare digits.simps [simp del]

definition to_string :: "int64_t \<Rightarrow> string" where
  "to_string i =
     (if sint i < 0 then CHR ''-'' # digits (nat (- sint i)) else digits (nat (sint i)))"

text \<open>
  The object the \<open>ADD\<close> and \<open>SUB\<close> cases construct when the test holds.  Both cases build
  it with the same text and neither throws it.
\<close>

definition overflow_diagnostic :: "int64_t \<Rightarrow> int64_t \<Rightarrow> int64_t \<Rightarrow> error option" where
  "overflow_diagnostic rhs lhs result =
     (if overflow_test rhs lhs result
      then Some (RuntimeError (''overflow in sum for values '' @ [CHR 0x27] @ to_string rhs
             @ [CHR 0x27] @ '' and '' @ [CHR 0x27] @ to_string lhs @ [CHR 0x27]))
      else None)"

text \<open>
  \<open>lhs / rhs\<close> and \<open>lhs % rhs\<close> on \<open>int64_t\<close> truncate towards zero.  Both are undefined
  in C++ when \<open>rhs\<close> is zero and when the quotient is not representable
  (\<open>INT64_MIN / -1\<close>); the source has no guard.  \<open>lhs - rhs\<close> and \<open>lhs * rhs\<close> are taken
  to wrap around on overflow, as two's complement hardware does.
\<close>

definition INT64_MIN :: int64_t where
  "INT64_MIN = 0x8000000000000000"

definition INT64_MAX :: int64_t where
  "INT64_MAX = 0x7FFFFFFFFFFFFFFF"

definition div_int64 :: "int64_t \<Rightarrow> int64_t \<Rightarrow> error + int64_t" where
  "div_int64 lhs rhs =
     (if rhs = 0 then Inl (Undefined ''division by zero'')
      else if lhs = INT64_MIN \<and> rhs = - 1 then Inl (Undefined ''overflow in division'')
      else Inr (word_of_int (sint lhs sdiv sint rhs)))"

definition mod_int64 :: "int64_t \<Rightarrow> int64_t \<Rightarrow> error + int64_t" where
  "mod_int64 lhs rhs =
     (if rhs = 0 then Inl (Undefined ''division by zero'')
      else if lhs = INT64_MIN \<and> rhs = - 1 then Inl (Undefined ''overflow in division'')
      else Inr (word_of_int (sint lhs smod sint rhs)))"

subsection \<open>One turn of the loop of \<open>Interp::Run\<close>\<close>

datatype Flow = Continue Interp | Return Interp

text \<open>
  \<open>Run_case\<close> is the \<open>switch (op)\<close> of \<open>Interp::Run\<close>, one equation for each case.  A
  value that is no enumerator matches no case of the \<open>switch\<close>, which has no default:
  the loop goes on with the next byte.
\<close>

fun Run_case :: "Extern \<Rightarrow> Program \<Rightarrow> Opcode option \<Rightarrow> Interp \<Rightarrow> error + Flow" where
  "Run_case X prog None st = Inr (Continue st)"
| "Run_case X prog (Some PUSH_FUNC) st =
       bindE (Read_size_t prog st) (\<lambda>(a, st). Inr (Continue (Push (Val_Addr a) st)))"
| "Run_case X prog (Some PUSH_PROTO) st =
       bindE (Read_RuntimeFn prog st) (\<lambda>(f, st). Inr (Continue (Push (Val_Proto f) st)))"
| "Run_case X prog (Some PUSH_INT) st =
       bindE (Read_int64_t prog st) (\<lambda>(val, st). Inr (Continue (Push (Val_Int val) st)))"
| "Run_case X prog (Some PEEK) st =
       bindE (Read_unsigned prog st) (\<lambda>(idx, st).
         if unat idx < length (stack st)
         then Inr (Continue (Push (rev (stack st) ! unat idx) st))
         else Inl (Undefined ''peek below the bottom of the stack''))"
| "Run_case X prog (Some POP) st =
       bindE (Pop st) (\<lambda>(v, st). Inr (Continue st))"
| "Run_case X prog (Some CALL) st =
       bindE (Pop st) (\<lambda>(callee, st).
         case callee of
           Val_Proto f \<Rightarrow> bindE (Native X f st) (\<lambda>st. Inr (Continue st))
         | Val_Addr a \<Rightarrow> Inr (Continue ((Push (Val_Addr (pc st)) st)\<lparr>pc := a\<rparr>))
         | Val_Int i \<Rightarrow> Inl (RuntimeError ''cannot call integer''))"
| "Run_case X prog (Some ADD) st =
       bindE (PopInt st) (\<lambda>(rhs, st). bindE (PopInt st) (\<lambda>(lhs, st).
         let result = rhs + lhs;
             unused = overflow_diagnostic rhs lhs result
         in Inr (Continue (Push (Val_Int result) st))))"
| "Run_case X prog (Some SUB) st =
       bindE (PopInt st) (\<lambda>(rhs, st). bindE (PopInt st) (\<lambda>(lhs, st).
         let result = lhs - rhs;
             unused = overflow_diagnostic rhs lhs result
         in Inr (Continue (Push (Val_Int result) st))))"
| "Run_case X prog (Some MUL) st =
       bindE (PopInt st) (\<lambda>(rhs, st). bindE (PopInt st) (\<lambda>(lhs, st).
         let result = lhs * rhs
         in Inr (Continue (Push (Val_Int result) st))))"
| "Run_case X prog (Some DIV) st =
       bindE (PopInt st) (\<lambda>(rhs, st). bindE (PopInt st) (\<lambda>(lhs, st).
         bindE (div_int64 lhs rhs) (\<lambda>result.
           Inr (Continue (Push (Val_Int result) st)))))"
| "Run_case X prog (Some MOD) st =
       bindE (PopInt st) (\<lambda>(rhs, st). bindE (PopInt st) (\<lambda>(lhs, st).
         bindE (mod_int64 lhs rhs) (\<lambda>result.
           Inr (Continue (Push (Val_Int result) st)))))"
| "Run_case X prog (Some DEQ) st =
       bindE (PopInt st) (\<lambda>(rhs, st). bindE (PopInt st) (\<lambda>(lhs, st).
         let result = (if lhs = rhs then 1 else 0)
         in Inr (Continue (Push (Val_Int result) st))))"
| "Run_case X prog (Some NEQ) st =
       bindE (PopInt st) (\<lambda>(rhs, st). bindE (PopInt st) (\<lambda>(lhs, st).
         let result = (if lhs \<noteq> rhs then 1 else 0)
         in Inr (Continue (Push (Val_Int result) st))))"
| "Run_case X prog (Some SM) st =
       bindE (PopInt st) (\<lambda>(rhs, st). bindE (PopInt st) (\<lambda>(lhs, st).
         let result = (if lhs <s rhs then 1 else 0)
         in Inr (Continue (Push (Val_Int result) st))))"
| "Run_case X prog (Some SMEQ) st =
       bindE (PopInt st) (\<lambda>(rhs, st). bindE (PopInt st) (\<lambda>(lhs, st).
         let result = (if lhs \<le>s rhs then 1 else 0)
         in Inr (Continue (Push (Val_Int result) st))))"
| "Run_case X prog (Some GR) st =
       bindE (PopInt st) (\<lambda>(rhs, st). bindE (PopInt st) (\<lambda>(lhs, st).
         let result = (if rhs <s lhs then 1 else 0)
         in Inr (Continue (Push (Val_Int result) st))))"
| "Run_case X prog (Some GREQ) st =
       bindE (PopInt st) (\<lambda>(rhs, st). bindE (PopInt st) (\<lambda>(lhs, st).
         let result = (if rhs \<le>s lhs then 1 else 0)
         in Inr (Continue (Push (Val_Int result) st))))"
| "Run_case X prog (Some RET) st =
       bindE (Read_unsigned prog st) (\<lambda>(depth, st).
       bindE (Read_unsigned prog st) (\<lambda>(nargs, st).
       bindE (Pop st) (\<lambda>(v, st).
       bindE (resize_minus depth st) (\<lambda>st.
       bindE (PopAddr st) (\<lambda>(a, st).
       bindE (resize_minus nargs (st\<lparr>pc := a\<rparr>)) (\<lambda>st.
         Inr (Continue (Push v st))))))))"
| "Run_case X prog (Some JUMP_FALSE) st =
       bindE (Pop st) (\<lambda>(cond, st).
       bindE (Read_size_t prog st) (\<lambda>(addr, st).
         if \<not> to_bool X cond then Inr (Continue (st\<lparr>pc := addr\<rparr>))
         else Inr (Continue st)))"
| "Run_case X prog (Some JUMP) st =
       bindE (Read_size_t prog st) (\<lambda>(addr, st). Inr (Continue (st\<lparr>pc := addr\<rparr>)))"
| "Run_case X prog (Some STOP) st = Inr (Return st)"

text \<open>\<open>step\<close> is the body of \<open>for (;;)\<close>: it reads an opcode and runs its case.\<close>

definition step :: "Extern \<Rightarrow> Program \<Rightarrow> Interp \<Rightarrow> error + Flow" where
  "step X prog st = bindE (Read_Opcode X prog st) (\<lambda>(op, st). Run_case X prog op st)"

text \<open>
  \<open>Interp::Run\<close>: the loop itself.  It may run forever; \<open>None\<close> is the run that never
  returns.
\<close>

partial_function (option) Run :: "Extern \<Rightarrow> Program \<Rightarrow> Interp \<Rightarrow> (error + Interp) option" where
  "Run X prog st =
     (case step X prog st of
        Inl e \<Rightarrow> Some (Inl e)
      | Inr (Continue st') \<Rightarrow> Run X prog st'
      | Inr (Return st') \<Rightarrow> Some (Inr st'))"

section \<open>The lexer (lexer.h)\<close>

text \<open>\<open>Token::Is\<close> and \<open>Token::operator bool\<close>: a token is true if it is not the end of file.\<close>

definition Is :: "Token \<Rightarrow> Kind \<Rightarrow> bool" where
  "Is t k \<longleftrightarrow> kind t = k"

definition Token_bool :: "Token \<Rightarrow> bool" where
  "Token_bool t \<longleftrightarrow> kind t \<noteq> END"

text \<open>
  The accessors of the payload.  Each asserts the kind of the token; reading a member
  of the union that was not written is undefined.
\<close>

definition GetIdent :: "Token \<Rightarrow> error + string" where
  "GetIdent t =
     (if \<not> Is t IDENT then Inl (AssertFailed ''not an identifier'')
      else case val t of StringValue s \<Rightarrow> Inr s | _ \<Rightarrow> Inl (Undefined ''token without text''))"

definition GetInt :: "Token \<Rightarrow> error + 64 word" where
  "GetInt t =
     (if \<not> Is t INT_token then Inl (AssertFailed ''not an identifier'')
      else case val t of IntValue i \<Rightarrow> Inr i | _ \<Rightarrow> Inl (Undefined ''token without integer''))"

definition GetString :: "Token \<Rightarrow> error + string" where
  "GetString t =
     (if \<not> Is t STRING then Inl (AssertFailed ''not an identifier'')
      else case val t of StringValue s \<Rightarrow> Inr s | _ \<Rightarrow> Inl (Undefined ''token without text''))"

text \<open>
  Modelled from the spec: \<open>Lexer::Next\<close> (lexer.cpp is missing).  The lexer holds the
  current token \<open>tk_\<close> (here \<open>current_tk\<close>); \<open>Next\<close> advances past it and makes the next
  token of the input the current one.  The characters still to be read are represented
  by the tokens they form, \<open>pending\<close>; when none is left the lexer yields the \<open>END\<close>
  token, at the location \<open>end_loc\<close> where the input ends, however often it is asked.
  Inputs on which the lexer raises a \<open>LexerError\<close> are outside this model.
\<close>

record Lexer =
  current_tk :: Token
  pending :: "Token list"
  end_loc :: Location

definition GetToken :: "Lexer \<Rightarrow> Token" where
  "GetToken lexer = current_tk lexer"

definition Next :: "Lexer \<Rightarrow> Lexer" where
  "Next lexer =
     (case pending lexer of
        [] \<Rightarrow> lexer\<lparr>current_tk := \<lparr>loc = end_loc lexer, kind = END, val = NoValue\<rparr>\<rparr>
      | t # ts \<Rightarrow> lexer\<lparr>current_tk := t, pending := ts\<rparr>)"

text \<open>
  Modelled from the spec: the constructor of the lexer (lexer.cpp is missing).  It opens
  the source and reads the first token, which is the lookahead the parser starts from.
  \<open>Lexer_of ts e\<close> is the lexer on an input that forms the tokens \<open>ts\<close> and ends at \<open>e\<close>.
\<close>

definition Lexer_of :: "Token list \<Rightarrow> Location \<Rightarrow> Lexer" where
  "Lexer_of ts e =
     Next \<lparr>current_tk = \<lparr>loc = e, kind = END, val = NoValue\<rparr>, pending = ts, end_loc = e\<rparr>"

text \<open>
  The builders of tokens: the private constructor \<open>Token(loc, kind)\<close>, which leaves the
  payload unset, and \<open>Token::Ident\<close>, \<open>Token::Int\<close> and \<open>Token::String\<close>.
\<close>

definition Token_of :: "Location \<Rightarrow> Kind \<Rightarrow> Token" where
  "Token_of l k = \<lparr>loc = l, kind = k, val = NoValue\<rparr>"

definition Token_Ident :: "Location \<Rightarrow> string \<Rightarrow> Token" where
  "Token_Ident l str = \<lparr>loc = l, kind = IDENT, val = StringValue str\<rparr>"

definition Token_Int :: "Location \<Rightarrow> 64 word \<Rightarrow> Token" where
  "Token_Int l integer = \<lparr>loc = l, kind = INT_token, val = IntValue integer\<rparr>"

definition Token_String :: "Location \<Rightarrow> string \<Rightarrow> Token" where
  "Token_String l str = \<lparr>loc = l, kind = STRING, val = StringValue str\<rparr>"

text \<open>A location in a one-line input, for evaluating the parser on concrete inputs.\<close>

definition at_column :: "int \<Rightarrow> Location" where
  "at_column n = \<lparr>Name = ''input'', Line = 1, Column = n\<rparr>"

text \<open>
  The tokens of a list of identifier arguments in which every argument is followed by a
  comma, for stating properties of calls: an item is the location and the name of the
  identifier and the location of the comma.
\<close>

definition arg_tokens :: "(Location \<times> string \<times> Location) list \<Rightarrow> Token list" where
  "arg_tokens items = concat (map (\<lambda>(la, a, lc). [Token_Ident la a, Token_of lc COMMA]) items)"

section \<open>The syntax tree\<close>

text \<open>
  Modelled from the spec: the nodes of the syntax tree (ast.h is missing), as section 3
  of the spec lists them.  A top-level item is a statement or a declaration.  The
  enumerators of \<open>BinaryExpr::Kind\<close> carry the suffix \<open>_kind\<close>, since the opcodes of the
  machine have the same names.
\<close>

datatype BinaryExpr_Kind =
    ADD_kind | SUB_kind | MUL_kind | DIV_kind | MOD_kind
  | DEQ_kind | NEQ_kind | SM_kind | SMEQ_kind | GR_kind | GREQ_kind

datatype Expr =
    RefExpr string
  | IntExpr "64 word"
  | CallExpr Expr "Expr list"
  | BinaryExpr BinaryExpr_Kind Expr Expr

datatype Stmt =
    ExprStmt Expr
  | ReturnStmt Expr
  | WhileStmt Expr Stmt
  | IfStmt Expr Stmt "Stmt option"
  | BlockStmt "Stmt list"

datatype TopLevelStmt =
    TopLevel Stmt
  | FuncDecl string "(string \<times> string) list" string Stmt
  | ProtoDecl string "(string \<times> string) list" string string

datatype Module = Module "TopLevelStmt list"

section \<open>The parser\<close>

text \<open>
  A parsing function takes the lexer and returns either an error or its result together
  with the lexer as it has left it.  The functions call each other recursively and loop,
  so they take a bound on the calls and iterations that remain; \<open>None\<close> is the answer of
  a function that has used up its bound.
\<close>

type_synonym 'a parse = "(error + ('a \<times> Lexer)) option"

definition bindP :: "(error + 'a) option \<Rightarrow> ('a \<Rightarrow> (error + 'b) option) \<Rightarrow> (error + 'b) option" where
  "bindP m f = (case m of None \<Rightarrow> None | Some (Inl e) \<Rightarrow> Some (Inl e) | Some (Inr x) \<Rightarrow> f x)"

definition Done :: "'a \<Rightarrow> (error + 'a) option" where
  "Done x = Some (Inr x)"

text \<open>Modelled from the spec: \<open>Parser::Current\<close> (parser.h is missing), the lookahead token.\<close>

definition Current :: "Lexer \<Rightarrow> Token" where
  "Current lexer = GetToken lexer"

text \<open>\<open>Check\<close> throws unless the current token has the given kind; \<open>Expect\<close> advances first.\<close>

definition Check :: "Kind \<Rightarrow> Lexer \<Rightarrow> error + Token" where
  "Check k lexer =
     (let tk = Current lexer
      in if k \<noteq> kind tk then Inl (ParserError (loc tk) tk (ExpectingKind k)) else Inr tk)"

definition Expect :: "Kind \<Rightarrow> Lexer \<Rightarrow> error + (Token \<times> Lexer)" where
  "Expect k lexer = (let lexer = Next lexer in bindE (Check k lexer) (\<lambda>tk. Inr (tk, lexer)))"

text \<open>
  The loop over the parameters of a function item in \<open>ParseModule\<close>:
  \<open>while (!lexer_.Next().Is(RPAREN)) { ...; if (!lexer_.Next().Is(COMMA)) break; }\<close>.
\<close>

fun ParseModule_args :: "nat \<Rightarrow> (string \<times> string) list \<Rightarrow> Lexer \<Rightarrow> ((string \<times> string) list) parse" where
  "ParseModule_args 0 args lexer = None"
| "ParseModule_args (Suc n) args lexer =
     (let lexer = Next lexer in
      if Is (Current lexer) RPAREN then Done (args, lexer)
      else
        bindP (Some (GetIdent (Current lexer))) (\<lambda>arg.
        bindP (Some (Expect COLON lexer)) (\<lambda>(tk, lexer).
        bindP (Some (Expect IDENT lexer)) (\<lambda>(tk, lexer).
        bindP (Some (GetIdent tk)) (\<lambda>type.
          let args = args @ [(arg, type)];
              lexer = Next lexer
          in if \<not> Is (Current lexer) COMMA then Done (args, lexer)
             else ParseModule_args n args lexer)))))"

text \<open>
  The expression parsers.  They call each other in a cycle that closes at \<open>ParseExpr\<close>
  (a parenthesised term, a call argument), so each takes as its first argument \<open>expr\<close>
  the function it calls where the source calls \<open>ParseExpr\<close>; \<open>ParseExpr\<close> itself closes
  the cycle below.  \<open>ParseCallExpr_args\<close>, \<open>ParseCallExpr_loop\<close>, \<open>ParseMulDivExpr_loop\<close>,
  \<open>ParseAddSubExpr_loop\<close> and \<open>ParseCompExpr_loop\<close> are the \<open>while\<close> loops of the functions
  they are named after; the number they take bounds their iterations.
\<close>

definition ParseTermExpr :: "(Lexer \<Rightarrow> Expr parse) \<Rightarrow> Lexer \<Rightarrow> Expr parse" where
  "ParseTermExpr expr lexer =
     (let tk = Current lexer in
      if kind tk = IDENT then
        bindP (Some (GetIdent tk)) (\<lambda>ident.
          let lexer = Next lexer
          in Done (RefExpr ident, lexer))
      else if kind tk = INT_token then
        bindP (Some (GetInt tk)) (\<lambda>integer.
          let lexer = Next lexer
          in Done (IntExpr integer, lexer))
      else if kind tk = LPAREN then
        (let lexer = Next lexer in
         bindP (expr lexer) (\<lambda>(e, lexer).
         bindP (Some (Check RPAREN lexer)) (\<lambda>tk.
           let lexer = Next lexer
           in Done (e, lexer))))
      else Some (Inl (ParserError (loc tk) tk ExpectingTerm)))"

fun ParseCallExpr_args ::
  "(Lexer \<Rightarrow> Expr parse) \<Rightarrow> nat \<Rightarrow> Expr list \<Rightarrow> Lexer \<Rightarrow> (Expr list) parse" where
  "ParseCallExpr_args expr 0 args lexer = None"
| "ParseCallExpr_args expr (Suc n) args lexer =
     (let lexer = Next lexer in
      if Is (Current lexer) RPAREN then Done (args, lexer)
      else
        bindP (expr lexer) (\<lambda>(e, lexer).
          let args = args @ [e]
          in if \<not> Is (Current lexer) COMMA then Done (args, lexer)
             else ParseCallExpr_args expr n args lexer))"

fun ParseCallExpr_loop ::
  "(Lexer \<Rightarrow> Expr parse) \<Rightarrow> nat \<Rightarrow> Expr \<Rightarrow> Lexer \<Rightarrow> Expr parse" where
  "ParseCallExpr_loop expr 0 callee lexer = None"
| "ParseCallExpr_loop expr (Suc n) callee lexer =
     (if Is (Current lexer) LPAREN then
        bindP (ParseCallExpr_args expr n [] lexer) (\<lambda>(args, lexer).
        bindP (Some (Check RPAREN lexer)) (\<lambda>tk.
          let lexer = Next lexer;
              callee = CallExpr callee args
          in ParseCallExpr_loop expr n callee lexer))
      else Done (callee, lexer))"

definition ParseCallExpr :: "(Lexer \<Rightarrow> Expr parse) \<Rightarrow> nat \<Rightarrow> Lexer \<Rightarrow> Expr parse" where
  "ParseCallExpr expr n lexer =
     bindP (ParseTermExpr expr lexer) (\<lambda>(callee, lexer). ParseCallExpr_loop expr n callee lexer)"

fun ParseMulDivExpr_loop ::
  "(Lexer \<Rightarrow> Expr parse) \<Rightarrow> nat \<Rightarrow> Expr \<Rightarrow> Lexer \<Rightarrow> Expr parse" where
  "ParseMulDivExpr_loop expr 0 term lexer = None"
| "ParseMulDivExpr_loop expr (Suc n) term lexer =
     (if Is (Current lexer) MULTIPLY \<or> Is (Current lexer) DIVIDE \<or> Is (Current lexer) MODULO then
        (let tk = Current lexer;
             lexer = Next lexer in
         bindP (ParseCallExpr expr n lexer) (\<lambda>(rhs, lexer).
           let term = BinaryExpr
                 (if Is tk MULTIPLY then MUL_kind
                  else if Is tk DIVIDE then DIV_kind
                  else MOD_kind) term rhs
           in ParseMulDivExpr_loop expr n term lexer))
      else Done (term, lexer))"

definition ParseMulDivExpr :: "(Lexer \<Rightarrow> Expr parse) \<Rightarrow> nat \<Rightarrow> Lexer \<Rightarrow> Expr parse" where
  "ParseMulDivExpr expr n lexer =
     bindP (ParseCallExpr expr n lexer) (\<lambda>(term, lexer). ParseMulDivExpr_loop expr n term lexer)"

fun ParseAddSubExpr_loop ::
  "(Lexer \<Rightarrow> Expr parse) \<Rightarrow> nat \<Rightarrow> Expr \<Rightarrow> Lexer \<Rightarrow> Expr parse" where
  "ParseAddSubExpr_loop expr 0 term lexer = None"
| "ParseAddSubExpr_loop expr (Suc n) term lexer =
     (if Is (Current lexer) PLUS \<or> Is (Current lexer) MINUS then
        (let tk = Current lexer;
             lexer = Next lexer in
         bindP (ParseMulDivExpr expr n lexer) (\<lambda>(rhs, lexer).
           let term = BinaryExpr (if Is tk PLUS then ADD_kind else SUB_kind) term rhs
           in ParseAddSubExpr_loop expr n term lexer))
      else Done (term, lexer))"

definition ParseAddSubExpr :: "(Lexer \<Rightarrow> Expr parse) \<Rightarrow> nat \<Rightarrow> Lexer \<Rightarrow> Expr parse" where
  "ParseAddSubExpr expr n lexer =
     bindP (ParseMulDivExpr expr n lexer) (\<lambda>(term, lexer). ParseAddSubExpr_loop expr n term lexer)"

fun ParseCompExpr_loop ::
  "(Lexer \<Rightarrow> Expr parse) \<Rightarrow> nat \<Rightarrow> Expr \<Rightarrow> Lexer \<Rightarrow> Expr parse" where
  "ParseCompExpr_loop expr 0 term lexer = None"
| "ParseCompExpr_loop expr (Suc n) term lexer =
     (if Is (Current lexer) DOUBLE_EQUAL \<or> Is (Current lexer) NOT_EQUAL
         \<or> Is (Current lexer) SMALLER \<or> Is (Current lexer) SMALLER_OR_EQUAL
         \<or> Is (Current lexer) GREATER \<or> Is (Current lexer) GREATER_OR_EQUAL then
        (let tk = Current lexer;
             lexer = Next lexer in
         bindP (ParseAddSubExpr expr n lexer) (\<lambda>(rhs, lexer).
           let term = BinaryExpr
                 (if Is tk DOUBLE_EQUAL then DEQ_kind
                  else if Is tk NOT_EQUAL then NEQ_kind
                  else if Is tk SMALLER then SM_kind
                  else if Is tk SMALLER_OR_EQUAL then SMEQ_kind
                  else if Is tk GREATER then GR_kind
                  else GREQ_kind) term rhs
           in ParseCompExpr_loop expr n term lexer))
      else Done (term, lexer))"

definition ParseCompExpr :: "(Lexer \<Rightarrow> Expr parse) \<Rightarrow> nat \<Rightarrow> Lexer \<Rightarrow> Expr parse" where
  "ParseCompExpr expr n lexer =
     bindP (ParseAddSubExpr expr n lexer) (\<lambda>(term, lexer). ParseCompExpr_loop expr n term lexer)"

text \<open>
  Modelled from the spec: \<open>Parser::ParseExpr\<close> (parser.h is missing); the loosest level
  of an expression is the comparison.  The number bounds the nesting of expressions in
  parentheses and call arguments, and the iterations of every loop; \<open>None\<close> is the answer
  when the bound is used up.
\<close>

primrec ParseExpr :: "nat \<Rightarrow> Lexer \<Rightarrow> Expr parse" where
  "ParseExpr 0 lexer = None"
| "ParseExpr (Suc n) lexer = ParseCompExpr (ParseExpr n) n lexer"

text \<open>
  The statement parsers; \<open>ParseBlockStmt_loop\<close> is the \<open>while\<close> loop of \<open>ParseBlockStmt\<close>.
  The number bounds the depth of the calls.
\<close>

fun ParseStmt :: "nat \<Rightarrow> Lexer \<Rightarrow> Stmt parse"
  and ParseBlockStmt :: "nat \<Rightarrow> Lexer \<Rightarrow> Stmt parse"
  and ParseBlockStmt_loop :: "nat \<Rightarrow> Stmt list \<Rightarrow> Lexer \<Rightarrow> (Stmt list) parse"
  and ParseReturnStmt :: "nat \<Rightarrow> Lexer \<Rightarrow> Stmt parse"
  and ParseWhileStmt :: "nat \<Rightarrow> Lexer \<Rightarrow> Stmt parse"
  and ParseIfStmt :: "nat \<Rightarrow> Lexer \<Rightarrow> Stmt parse"
where
"ParseStmt 0 lexer = None"
| "ParseStmt (Suc n) lexer =
     (let tk = Current lexer in
      if kind tk = RETURN then ParseReturnStmt n lexer
      else if kind tk = WHILE then ParseWhileStmt n lexer
      else if kind tk = LBRACE then ParseBlockStmt n lexer
      else if kind tk = IF then ParseIfStmt n lexer
      else bindP (ParseExpr n lexer) (\<lambda>(expr, lexer). Done (ExprStmt expr, lexer)))"

| "ParseBlockStmt 0 lexer = None"
| "ParseBlockStmt (Suc n) lexer =
     bindP (Some (Check LBRACE lexer)) (\<lambda>tk.
     bindP (ParseBlockStmt_loop n [] lexer) (\<lambda>(body, lexer).
     bindP (Some (Check RBRACE lexer)) (\<lambda>tk.
       let lexer = Next lexer
       in Done (BlockStmt body, lexer))))"

| "ParseBlockStmt_loop 0 body lexer = None"
| "ParseBlockStmt_loop (Suc n) body lexer =
     (let lexer = Next lexer in
      if Is (Current lexer) RBRACE then Done (body, lexer)
      else
        bindP (ParseStmt n lexer) (\<lambda>(stmt, lexer).
          let body = body @ [stmt]
          in if \<not> Is (Current lexer) SEMI then Done (body, lexer)
             else ParseBlockStmt_loop n body lexer))"

| "ParseReturnStmt 0 lexer = None"
| "ParseReturnStmt (Suc n) lexer =
     bindP (Some (Check RETURN lexer)) (\<lambda>tk.
       let lexer = Next lexer
       in bindP (ParseExpr n lexer) (\<lambda>(expr, lexer). Done (ReturnStmt expr, lexer)))"

| "ParseWhileStmt 0 lexer = None"
| "ParseWhileStmt (Suc n) lexer =
     bindP (Some (Check WHILE lexer)) (\<lambda>tk.
     bindP (Some (Expect LPAREN lexer)) (\<lambda>(tk, lexer).
       let lexer = Next lexer in
       bindP (ParseExpr n lexer) (\<lambda>(cond, lexer).
       bindP (Some (Check RPAREN lexer)) (\<lambda>tk.
         let lexer = Next lexer in
         bindP (ParseStmt n lexer) (\<lambda>(stmt, lexer). Done (WhileStmt cond stmt, lexer))))))"

| "ParseIfStmt 0 lexer = None"
| "ParseIfStmt (Suc n) lexer =
     bindP (Some (Check IF lexer)) (\<lambda>tk.
     bindP (Some (Expect LPAREN lexer)) (\<lambda>(tk, lexer).
       let lexer = Next lexer in
       bindP (ParseExpr n lexer) (\<lambda>(cond, lexer).
       bindP (Some (Check RPAREN lexer)) (\<lambda>tk.
         let lexer = Next lexer in
         bindP (ParseStmt n lexer) (\<lambda>(stmt, lexer).
           if Is (Current lexer) ELSE then
             let lexer = Next lexer in
             bindP (ParseStmt n lexer) (\<lambda>(elseStmt, lexer).
               Done (IfStmt cond stmt (Some elseStmt), lexer))
           else Done (IfStmt cond stmt None, lexer))))))"

text \<open>
  \<open>ParseModule_loop\<close> is the loop \<open>while (auto tk = Current())\<close> of \<open>ParseModule\<close>, which
  ends at the \<open>END\<close> token.
\<close>

fun ParseModule_loop :: "nat \<Rightarrow> TopLevelStmt list \<Rightarrow> Lexer \<Rightarrow> (TopLevelStmt list) parse" where
  "ParseModule_loop 0 body lexer = None"
| "ParseModule_loop (Suc n) body lexer =
     (let tk = Current lexer in
      if \<not> Token_bool tk then Done (body, lexer)
      else if Is tk FUNC then
        bindP (Some (Expect IDENT lexer)) (\<lambda>(tk, lexer).
        bindP (Some (GetIdent tk)) (\<lambda>name.
        bindP (Some (Expect LPAREN lexer)) (\<lambda>(tk, lexer).
        bindP (ParseModule_args n [] lexer) (\<lambda>(args, lexer).
        bindP (Some (Check RPAREN lexer)) (\<lambda>tk.
        bindP (Some (Expect COLON lexer)) (\<lambda>(tk, lexer).
        bindP (Some (Expect IDENT lexer)) (\<lambda>(tk, lexer).
        bindP (Some (GetIdent tk)) (\<lambda>type.
          let lexer = Next lexer in
          if Is (Current lexer) EQUAL then
            bindP (Some (Expect STRING lexer)) (\<lambda>(tk, lexer).
            bindP (Some (GetString tk)) (\<lambda>primitive.
              let lexer = Next lexer
              in ParseModule_loop n (body @ [ProtoDecl name args type primitive]) lexer))
          else
            bindP (ParseBlockStmt n lexer) (\<lambda>(block, lexer).
              ParseModule_loop n (body @ [FuncDecl name args type block]) lexer)))))))))
      else
        bindP (ParseStmt n lexer) (\<lambda>(stmt, lexer).
          ParseModule_loop n (body @ [TopLevel stmt]) lexer))"

definition ParseModule :: "nat \<Rightarrow> Lexer \<Rightarrow> Module parse" where
  "ParseModule n lexer =
     bindP (ParseModule_loop n [] lexer) (\<lambda>(body, lexer). Done (Module body, lexer))"

text \<open>
  An instance of the parameters, for running the machine on concrete programs: an opcode
  is one byte, numbered in the order of the cases of \<open>Interp::Run\<close>; every native function
  pushes \<open>Integer(0)\<close>; a value that is not an integer is true.
\<close>

definition sample_Extern :: Extern where
  "sample_Extern =
     \<lparr>Opcode_size = 1,
      Opcode_of = map_of
        [([0], PUSH_FUNC), ([1], PUSH_PROTO), ([2], PUSH_INT), ([3], PEEK), ([4], POP),
         ([5], CALL), ([6], ADD), ([7], SUB), ([8], MUL), ([9], DIV), ([10], MOD),
         ([11], DEQ), ([12], NEQ), ([13], SM), ([14], SMEQ), ([15], GR), ([16], GREQ),
         ([17], RET), ([18], JUMP_FALSE), ([19], JUMP), ([20], STOP)],
      Native = (\<lambda>f st. Inr (Push (Val_Int 0) st)),
      Truth_other = (\<lambda>v. True)\<rparr>"

subsection \<open>What the spec says a binary operator computes\<close>

definition binary_ops :: "Opcode list" where
  "binary_ops = [ADD, SUB, MUL, DIV, MOD, DEQ, NEQ, SM, SMEQ, GR, GREQ]"

text \<open>
  The value of \<open>lhs <op> rhs\<close> on the integers the operands stand for, following the
  spec's table; \<open>None\<close> where the expression has no value as an \<open>int64_t\<close> (a zero
  divisor, a quotient out of range).  Division truncates towards zero.
\<close>

definition spec_binop :: "Opcode \<Rightarrow> int \<Rightarrow> int \<Rightarrow> int option" where
  "spec_binop op l r =
     (if op = ADD then Some (l + r)
      else if op = SUB then Some (l - r)
      else if op = MUL then Some (l * r)
      else if op = DIV then (if r = 0 \<or> l sdiv r \<ge> 2 ^ 63 then None else Some (l sdiv r))
      else if op = MOD then (if r = 0 \<or> l sdiv r \<ge> 2 ^ 63 then None else Some (l smod r))
      else if op = DEQ then Some (if l = r then 1 else 0)
      else if op = NEQ then Some (if l \<noteq> r then 1 else 0)
      else if op = SM then Some (if l < r then 1 else 0)
      else if op = SMEQ then Some (if l \<le> r then 1 else 0)
      else if op = GR then Some (if l > r then 1 else 0)
      else if op = GREQ then Some (if l \<ge> r then 1 else 0)
      else None)"

section \<open>Properties of the virtual machine\<close>

subsection \<open>Auxiliary facts\<close>

lemma bindE_Inr: "bindE (Inr x) f = f x"
  by (simp add: bindE_def)

lemma bindE_Inl: "bindE (Inl e) f = Inl e"
  by (simp add: bindE_def)

lemma Pop_snoc: "stack st = s @ [v] \<Longrightarrow> Pop st = Inr (v, st\<lparr>stack := s\<rparr>)"
  by (simp add: Pop_def)

lemma PopInt_snoc: "stack st = s @ [Val_Int i] \<Longrightarrow> PopInt st = Inr (i, st\<lparr>stack := s\<rparr>)"
  by (simp add: PopInt_def Pop_snoc bindE_Inr)

lemma PopAddr_snoc: "stack st = s @ [Val_Addr a] \<Longrightarrow> PopAddr st = Inr (a, st\<lparr>stack := s\<rparr>)"
  by (simp add: PopAddr_def Pop_snoc bindE_Inr)

lemma PopInt_two:
  assumes "stack st = s @ [Val_Int lhs, Val_Int rhs]"
  shows "bindE (PopInt st) (\<lambda>(r, st1). bindE (PopInt st1) (\<lambda>(l, st2). f r l st2))
     = f rhs lhs (st\<lparr>stack := s\<rparr>)"
proof -
  from assms have "stack st = (s @ [Val_Int lhs]) @ [Val_Int rhs]" by simp
  then have 1: "PopInt st = Inr (rhs, st\<lparr>stack := s @ [Val_Int lhs]\<rparr>)"
    by (rule PopInt_snoc)
  have 2: "PopInt (st\<lparr>stack := s @ [Val_Int lhs]\<rparr>) = Inr (lhs, st\<lparr>stack := s\<rparr>)"
    using PopInt_snoc [of "st\<lparr>stack := s @ [Val_Int lhs]\<rparr>" s lhs] by simp
  show ?thesis by (simp add: 1 2 bindE_Inr)
qed

lemma Read_raw_stack:
  "Read_raw n prog st0 = Inr (bs, st) \<Longrightarrow> stack st = stack st0"
  by (auto simp: Read_raw_def split: if_splits)

lemma Read_raw_pc:
  "Read_raw n prog st0 = Inr (bs, st) \<Longrightarrow> pc st = pc st0 + of_nat n"
  by (auto simp: Read_raw_def split: if_splits)

lemma Read_raw_update_stack:
  "Read_raw n prog st0 = Inr (bs, st) \<Longrightarrow>
   Read_raw n prog (st0\<lparr>stack := s\<rparr>) = Inr (bs, st\<lparr>stack := s\<rparr>)"
  by (auto simp: Read_raw_def split: if_splits)

lemma Read_Opcode_stack:
  "Read_Opcode X prog st0 = Inr (op, st) \<Longrightarrow> stack st = stack st0"
  by (auto simp: Read_Opcode_def bindE_def split: sum.splits dest: Read_raw_stack)

lemma Read_Opcode_pc:
  "Read_Opcode X prog st0 = Inr (op, st) \<Longrightarrow> pc st = pc st0 + of_nat (Opcode_size X)"
  by (auto simp: Read_Opcode_def bindE_def split: sum.splits dest: Read_raw_pc)

lemma Read_unsigned_stack:
  "Read_unsigned prog st0 = Inr (n, st) \<Longrightarrow> stack st = stack st0"
  by (auto simp: Read_unsigned_def bindE_def split: sum.splits dest: Read_raw_stack)

lemma Read_size_t_stack:
  "Read_size_t prog st0 = Inr (n, st) \<Longrightarrow> stack st = stack st0"
  by (auto simp: Read_size_t_def bindE_def split: sum.splits dest: Read_raw_stack)

lemma Read_size_t_pc:
  "Read_size_t prog st0 = Inr (n, st) \<Longrightarrow> pc st = pc st0 + 8"
  by (auto simp: Read_size_t_def bindE_def split: sum.splits dest: Read_raw_pc)

lemma Read_size_t_update_stack:
  "Read_size_t prog st0 = Inr (n, st) \<Longrightarrow>
   Read_size_t prog (st0\<lparr>stack := s\<rparr>) = Inr (n, st\<lparr>stack := s\<rparr>)"
  by (auto simp: Read_size_t_def bindE_def split: sum.splits dest: Read_raw_update_stack [where s = s])

lemma step_Read:
  "Read_Opcode X prog st0 = Inr (op, st) \<Longrightarrow> step X prog st0 = Run_case X prog op st"
  by (simp add: step_def bindE_Inr)

lemma sint_eq_iff: "sint (a::64 word) = sint b \<longleftrightarrow> a = b"
  by (auto intro: signed_word_eqI)

lemma sint_lower: "- (2 ^ 63) \<le> sint (a :: 64 word)"
  using sint_ge [of a] by simp

lemma sint_upper: "sint (a :: 64 word) < 2 ^ 63"
  using sint_lt [of a] by simp

lemma INT64_MIN_iff: "(a = INT64_MIN) \<longleftrightarrow> sint a = - (2 ^ 63)"
proof -
  have "sint INT64_MIN = - (2 ^ 63)" by (simp add: INT64_MIN_def)
  then show ?thesis using sint_eq_iff [of a INT64_MIN] by simp
qed

lemma minus_one_iff: "((a::64 word) = - 1) \<longleftrightarrow> sint a = - 1"
  using sint_eq_iff [of a "- 1"] by simp

lemma zero_iff: "((a::64 word) = 0) \<longleftrightarrow> sint a = 0"
  using sint_eq_iff [of a 0] by simp

lemma sint_add_wrap:
  fixes a b :: "64 word"
  shows "sint (a + b) = (sint a + sint b + 2 ^ 63) mod 2 ^ 64 - 2 ^ 63"
  by (simp add: sint_word_ariths signed_take_bit_eq_take_bit_shift take_bit_eq_mod)

lemma mod_wrap_low:
  fixes s m :: int
  assumes "- m \<le> s" "s < 0"
  shows "s mod m = s + m"
proof -
  have "s mod m = (s + m) mod m" by simp
  also have "\<dots> = s + m" using assms by (intro mod_pos_pos_trivial) simp_all
  finally show ?thesis .
qed

lemma mod_wrap_high:
  fixes s m :: int
  assumes "m \<le> s" "s < 2 * m"
  shows "s mod m = s - m"
proof -
  have "s mod m = (s - m) mod m" by simp
  also have "\<dots> = s - m" using assms by (intro mod_pos_pos_trivial) simp_all
  finally show ?thesis .
qed

text \<open>
  For \<open>ADD\<close> the test holds only on overflow, and on every overflow but one: the sum of
  \<open>INT64_MIN\<close> and \<open>INT64_MIN\<close>, which wraps around to 0.
\<close>

lemma overflow_test_ADD:
  "overflow_test rhs lhs (rhs + lhs) \<longleftrightarrow>
     (sint lhs + sint rhs < - (2 ^ 63) \<or> 2 ^ 63 \<le> sint lhs + sint rhs)
     \<and> \<not> (lhs = INT64_MIN \<and> rhs = INT64_MIN)"
proof -
  define a b where "a = sint lhs" and "b = sint rhs"
  have bounds: "- (2 ^ 63) \<le> a" "a < 2 ^ 63" "- (2 ^ 63) \<le> b" "b < 2 ^ 63"
    using sint_lower [of lhs] sint_upper [of lhs] sint_lower [of rhs] sint_upper [of rhs]
    by (simp_all add: a_def b_def)
  have r: "sint (rhs + lhs) = (b + a + 2 ^ 63) mod 2 ^ 64 - 2 ^ 63"
    by (simp add: sint_add_wrap a_def b_def)
  have test: "overflow_test rhs lhs (rhs + lhs) \<longleftrightarrow>
      (b < 0 \<and> a < 0 \<and> 0 < sint (rhs + lhs)) \<or> (0 < b \<and> 0 < a \<and> sint (rhs + lhs) < 0)"
    by (simp add: overflow_test_def word_sless_alt a_def b_def)
  have mins: "(lhs = INT64_MIN \<and> rhs = INT64_MIN) \<longleftrightarrow> (a = - (2 ^ 63) \<and> b = - (2 ^ 63))"
    by (simp add: INT64_MIN_iff a_def b_def)
  consider (low) "a + b < - (2 ^ 63)" | (mid) "- (2 ^ 63) \<le> a + b" "a + b < 2 ^ 63"
    | (high) "2 ^ 63 \<le> a + b"
    by linarith
  then have "((b < 0 \<and> a < 0 \<and> 0 < sint (rhs + lhs)) \<or> (0 < b \<and> 0 < a \<and> sint (rhs + lhs) < 0))
      \<longleftrightarrow> (a + b < - (2 ^ 63) \<or> 2 ^ 63 \<le> a + b) \<and> \<not> (a = - (2 ^ 63) \<and> b = - (2 ^ 63))"
  proof cases
    case low
    have "(b + a + 2 ^ 63) mod 2 ^ 64 = b + a + 2 ^ 63 + 2 ^ 64"
      using low bounds by (intro mod_wrap_low) simp_all
    then have "sint (rhs + lhs) = a + b + 2 ^ 64" using r by simp
    with low bounds show ?thesis by auto
  next
    case mid
    have "(b + a + 2 ^ 63) mod 2 ^ 64 = b + a + 2 ^ 63"
      using mid by (intro mod_pos_pos_trivial) simp_all
    then have "sint (rhs + lhs) = a + b" using r by simp
    with mid bounds show ?thesis by auto
  next
    case high
    have "(b + a + 2 ^ 63) mod 2 ^ 64 = b + a + 2 ^ 63 - 2 ^ 64"
      using high bounds by (intro mod_wrap_high) simp_all
    then have "sint (rhs + lhs) = a + b - 2 ^ 64" using r by simp
    with high bounds show ?thesis by auto
  qed
  then show ?thesis by (simp add: test mins a_def b_def)
qed

text \<open>
  For \<open>SUB\<close> the same test holds only for operands of the same sign, whose difference
  is always in range: it never holds on an overflow.
\<close>

lemma overflow_test_SUB:
  assumes "overflow_test rhs lhs (lhs - rhs)"
  shows "- (2 ^ 63) \<le> sint lhs - sint rhs \<and> sint lhs - sint rhs < 2 ^ 63"
proof -
  from assms have "(sint rhs < 0 \<and> sint lhs < 0) \<or> (0 < sint rhs \<and> 0 < sint lhs)"
    by (auto simp: overflow_test_def word_sless_alt)
  then show ?thesis
    using sint_lower [of lhs] sint_upper [of lhs] sint_lower [of rhs] sint_upper [of rhs]
    by auto
qed

lemma abs_div_less:
  fixes l r :: int
  assumes "1 < \<bar>r\<bar>" "l \<noteq> 0"
  shows "\<bar>l\<bar> div \<bar>r\<bar> < \<bar>l\<bar>"
  by (simp add: assms int_div_less_self)

text \<open>The only quotient of two \<open>int64_t\<close> values that is out of range.\<close>

lemma sdiv_overflow_iff:
  fixes l r :: int
  assumes "- (2 ^ 63) \<le> l" "l < 2 ^ 63" "r \<noteq> 0"
  shows "(2 ^ 63 \<le> l sdiv r) \<longleftrightarrow> (l = - (2 ^ 63) \<and> r = - 1)"
proof
  assume "l = - (2 ^ 63) \<and> r = - 1"
  then show "2 ^ 63 \<le> l sdiv r" by (simp add: signed_divide_int_def)
next
  assume a: "2 ^ 63 \<le> l sdiv r"
  have q: "0 \<le> \<bar>l\<bar> div \<bar>r\<bar>"
    by (simp add: div_int_pos_iff)
  have s: "sgn l * sgn r \<le> 1"
    by (cases "l < 0"; cases "r < 0"; cases "l = 0"; cases "r = 0"; simp)
  have "l sdiv r \<le> \<bar>l\<bar> div \<bar>r\<bar>"
    unfolding signed_divide_int_def using q s
    by (metis mult.commute mult_left_le)
  with a have c: "2 ^ 63 \<le> \<bar>l\<bar> div \<bar>r\<bar>" by simp
  have l0: "l \<noteq> 0" using c by auto
  have "\<not> 1 < \<bar>r\<bar>"
  proof
    assume "1 < \<bar>r\<bar>"
    then have "\<bar>l\<bar> div \<bar>r\<bar> < \<bar>l\<bar>" using l0 by (rule abs_div_less)
    with c assms show False by simp
  qed
  with assms have r1: "r = 1 \<or> r = - 1" by auto
  with c have "2 ^ 63 \<le> \<bar>l\<bar>" by auto
  with assms have l: "l = - (2 ^ 63)" by simp
  from r1 a l have "r = - 1" by (auto simp: signed_divide_int_def)
  with l show "l = - (2 ^ 63) \<and> r = - 1" by simp
qed

lemma div_int64_spec:
  "div_int64 lhs rhs =
     (case spec_binop DIV (sint lhs) (sint rhs) of
        Some r \<Rightarrow> Inr (word_of_int r)
      | None \<Rightarrow> Inl (Undefined (if rhs = 0 then ''division by zero'' else ''overflow in division'')))"
  using sdiv_overflow_iff [OF sint_lower [of lhs] sint_upper [of lhs], of "sint rhs"]
  by (simp add: div_int64_def spec_binop_def INT64_MIN_iff minus_one_iff zero_iff)

lemma mod_int64_spec:
  "mod_int64 lhs rhs =
     (case spec_binop MOD (sint lhs) (sint rhs) of
        Some r \<Rightarrow> Inr (word_of_int r)
      | None \<Rightarrow> Inl (Undefined (if rhs = 0 then ''division by zero'' else ''overflow in division'')))"
  using sdiv_overflow_iff [OF sint_lower [of lhs] sint_upper [of lhs], of "sint rhs"]
  by (simp add: mod_int64_def spec_binop_def INT64_MIN_iff minus_one_iff zero_iff)

text \<open>Every binary operator pops \<open>rhs\<close>, then \<open>lhs\<close>, and pushes \<open>lhs <op> rhs\<close>.\<close>

lemma Run_case_binary:
  assumes "op \<in> set binary_ops"
    and "stack st = s @ [Val_Int lhs, Val_Int rhs]"
  shows "Run_case X prog (Some op) st =
     (case spec_binop op (sint lhs) (sint rhs) of
        Some r \<Rightarrow> Inr (Continue (st\<lparr>stack := s @ [Val_Int (word_of_int r)]\<rparr>))
      | None \<Rightarrow> Inl (Undefined (if rhs = 0 then ''division by zero'' else ''overflow in division'')))"
proof -
  note two = PopInt_two [OF assms(2)]
  from assms(1) consider "op = ADD" | "op = SUB" | "op = MUL" | "op = DIV" | "op = MOD"
    | "op = DEQ" | "op = NEQ" | "op = SM" | "op = SMEQ" | "op = GR" | "op = GREQ"
    by (auto simp: binary_ops_def)
  then show ?thesis
  proof cases
    case 1 then show ?thesis by (simp add: two spec_binop_def Push_def Let_def)
  next
    case 2 then show ?thesis by (simp add: two spec_binop_def Push_def Let_def)
  next
    case 3 then show ?thesis by (simp add: two spec_binop_def Push_def Let_def)
  next
    case 4 then show ?thesis
      by (cases "spec_binop DIV (sint lhs) (sint rhs)")
        (simp_all add: two div_int64_spec Push_def bindE_Inr bindE_Inl)
  next
    case 5 then show ?thesis
      by (cases "spec_binop MOD (sint lhs) (sint rhs)")
        (simp_all add: two mod_int64_spec Push_def bindE_Inr bindE_Inl)
  next
    case 6 then show ?thesis by (simp add: two spec_binop_def Push_def Let_def sint_eq_iff)
  next
    case 7 then show ?thesis by (simp add: two spec_binop_def Push_def Let_def sint_eq_iff)
  next
    case 8 then show ?thesis by (simp add: two spec_binop_def Push_def Let_def word_sless_alt)
  next
    case 9 then show ?thesis by (simp add: two spec_binop_def Push_def Let_def word_sle_eq)
  next
    case 10 then show ?thesis by (simp add: two spec_binop_def Push_def Let_def word_sless_alt)
  next
    case 11 then show ?thesis by (simp add: two spec_binop_def Push_def Let_def word_sle_eq)
  qed
qed

subsection \<open>RET\<close>

text \<open>
  C1 (as stated).  The claim: after \<open>RET(depth = D, nargs = N)\<close> the stack height equals
  the height immediately before the \<open>RET\<close> minus \<open>D + N\<close>, plus the one retained return
  value.  On the stack \<open>[7, arg, Address 40, local, 9]\<close> with \<open>D = 1\<close> and \<open>N = 1\<close> the
  height before is 5 and the height after is 2: neither \<open>5 - (1 + 1) + 1\<close> nor
  \<open>5 - (1 + 1)\<close>, because the return address is popped as well.
\<close>

theorem RET_height_counterexample:
  "step sample_Extern [17, 1, 0, 0, 0, 1, 0, 0, 0]
      \<lparr>pc = 0, stack = [Val_Int 7, Val_Int 5, Val_Addr 40, Val_Int 6, Val_Int 9]\<rparr>
     = Inr (Continue \<lparr>pc = 40, stack = [Val_Int 7, Val_Int 9]\<rparr>)
   \<and> length [Val_Int 7, Val_Int 9] \<noteq> length [Val_Int 7, Val_Int 5, Val_Addr 40, Val_Int 6, Val_Int 9] - (1 + 1) + 1
   \<and> length [Val_Int 7, Val_Int 9] \<noteq> length [Val_Int 7, Val_Int 5, Val_Addr 40, Val_Int 6, Val_Int 9] - (1 + 1)"
  by (simp add: step_def sample_Extern_def Read_Opcode_def Read_unsigned_def Read_raw_def
      bindE_def Pop_def PopAddr_def resize_minus_def Push_def)

text \<open>
  C1 (amended).  Executing \<open>RET\<close> with immediates \<open>depth = D\<close> and \<open>nargs = N\<close> on a stack
  that holds, from the top, the return value, \<open>D\<close> intermediate values, the return
  address and \<open>N\<close> argument values removes all of them, jumps to the return address and
  puts the return value back on top: the height after the \<open>RET\<close> is the height before
  it minus \<open>D + N + 1\<close>, and the values below the arguments are unchanged.
\<close>

theorem RET_height:
  assumes "Read_Opcode X prog st0 = Inr (Some RET, st1)"
    and "Read_unsigned prog st1 = Inr (depth, st2)"
    and "Read_unsigned prog st2 = Inr (nargs, st3)"
    and "stack st0 = base @ args @ [Val_Addr ra] @ locals @ [v]"
    and "length locals = unat depth"
    and "length args = unat nargs"
  shows "step X prog st0 = Inr (Continue (st3\<lparr>pc := ra, stack := base @ [v]\<rparr>))
     \<and> length (base @ [v]) + (unat depth + unat nargs + 1) = length (stack st0)"
proof -
  have s3: "stack st3 = (base @ args @ Val_Addr ra # locals) @ [v]"
    using assms(1-4) by (simp add: Read_Opcode_stack Read_unsigned_stack)
  have pop: "Pop st3 = Inr (v, st3\<lparr>stack := base @ args @ Val_Addr ra # locals\<rparr>)"
    using s3 by (rule Pop_snoc)
  have r1: "resize_minus depth (st3\<lparr>stack := base @ args @ Val_Addr ra # locals\<rparr>)
      = Inr (st3\<lparr>stack := base @ args @ [Val_Addr ra]\<rparr>)"
    using assms(5) by (simp add: resize_minus_def)
  have pa: "PopAddr (st3\<lparr>stack := base @ args @ [Val_Addr ra]\<rparr>)
      = Inr (ra, st3\<lparr>stack := base @ args\<rparr>)"
    using PopAddr_snoc [of "st3\<lparr>stack := base @ args @ [Val_Addr ra]\<rparr>" "base @ args" ra]
    by simp
  have r2: "resize_minus nargs (st3\<lparr>stack := base @ args, pc := ra\<rparr>)
      = Inr (st3\<lparr>stack := base, pc := ra\<rparr>)"
    using assms(6) by (simp add: resize_minus_def)
  have "step X prog st0 = Run_case X prog (Some RET) st1"
    using assms(1) by (rule step_Read)
  also have "\<dots> = Inr (Continue (st3\<lparr>pc := ra, stack := base @ [v]\<rparr>))"
    by (simp add: assms(2,3) pop r1 pa r2 bindE_Inr Push_def)
  finally show ?thesis using assms(4-6) by simp
qed

theorem RET_height_witness:
  "step sample_Extern [17, 1, 0, 0, 0, 1, 0, 0, 0]
      \<lparr>pc = 0, stack = [Val_Int 7, Val_Int 5, Val_Addr 40, Val_Int 6, Val_Int 9]\<rparr>
     = Inr (Continue \<lparr>pc = 40, stack = [Val_Int 7, Val_Int 9]\<rparr>)
   \<and> length ([Val_Int 7] @ [Val_Int 9]) + (unat (1 :: unsigned) + unat (1 :: unsigned) + 1)
       = length [Val_Int 7, Val_Int 5, Val_Addr 40, Val_Int 6, Val_Int 9]"
  using RET_height [of sample_Extern "[17, 1, 0, 0, 0, 1, 0, 0, 0]"
      "\<lparr>pc = 0, stack = [Val_Int 7, Val_Int 5, Val_Addr 40, Val_Int 6, Val_Int 9]\<rparr>"
      "\<lparr>pc = 1, stack = [Val_Int 7, Val_Int 5, Val_Addr 40, Val_Int 6, Val_Int 9]\<rparr>"
      1
      "\<lparr>pc = 5, stack = [Val_Int 7, Val_Int 5, Val_Addr 40, Val_Int 6, Val_Int 9]\<rparr>"
      1
      "\<lparr>pc = 9, stack = [Val_Int 7, Val_Int 5, Val_Addr 40, Val_Int 6, Val_Int 9]\<rparr>"
      "[Val_Int 7]" "[Val_Int 5]" 40 "[Val_Int 6]" "Val_Int 9"]
  by (simp add: sample_Extern_def Read_Opcode_def Read_unsigned_def Read_raw_def bindE_def)

subsection \<open>CALL\<close>

text \<open>
  C2.  Executing \<open>CALL\<close> pops the callee.  An \<open>Integer\<close> callee aborts the execution with
  the runtime error "cannot call integer".  An \<open>Address\<close> callee raises nothing: the
  machine pushes the program counter, which points past the \<open>CALL\<close> opcode, as an
  \<open>Address\<close>, and then sets the program counter to the callee's address.  A native
  callee is invoked on the state after the pop, and the outcome is the native
  function's own.
\<close>

theorem CALL_callee_kinds:
  assumes "Read_Opcode X prog st0 = Inr (Some CALL, st1)"
    and "stack st0 = s @ [callee]"
  shows "pc st1 = pc st0 + of_nat (Opcode_size X) \<and>
     (case callee of
        Val_Int i \<Rightarrow> step X prog st0 = Inl (RuntimeError ''cannot call integer'')
      | Val_Addr a \<Rightarrow>
          step X prog st0 = Inr (Continue (st1\<lparr>stack := s @ [Val_Addr (pc st1)], pc := a\<rparr>))
      | Val_Proto f \<Rightarrow>
          step X prog st0 = bindE (Native X f (st1\<lparr>stack := s\<rparr>)) (\<lambda>st. Inr (Continue st)))"
proof -
  have "stack st1 = s @ [callee]"
    using assms by (simp add: Read_Opcode_stack)
  then have pop: "Pop st1 = Inr (callee, st1\<lparr>stack := s\<rparr>)"
    by (rule Pop_snoc)
  have "step X prog st0 = Run_case X prog (Some CALL) st1"
    using assms(1) by (rule step_Read)
  then show ?thesis
    using Read_Opcode_pc [OF assms(1)]
    by (cases callee) (simp_all add: pop bindE_Inr Push_def)
qed

theorem CALL_callee_kinds_witness:
  "step sample_Extern [5] \<lparr>pc = 0, stack = [Val_Int 41, Val_Int 3]\<rparr>
     = Inl (RuntimeError ''cannot call integer'')
   \<and> step sample_Extern [5] \<lparr>pc = 0, stack = [Val_Int 41, Val_Addr 12]\<rparr>
     = Inr (Continue \<lparr>pc = 12, stack = [Val_Int 41, Val_Addr 1]\<rparr>)"
  using CALL_callee_kinds [of sample_Extern "[5]" "\<lparr>pc = 0, stack = [Val_Int 41, Val_Int 3]\<rparr>"
      "\<lparr>pc = 1, stack = [Val_Int 41, Val_Int 3]\<rparr>" "[Val_Int 41]" "Val_Int 3"]
    CALL_callee_kinds [of sample_Extern "[5]" "\<lparr>pc = 0, stack = [Val_Int 41, Val_Addr 12]\<rparr>"
      "\<lparr>pc = 1, stack = [Val_Int 41, Val_Addr 12]\<rparr>" "[Val_Int 41]" "Val_Addr 12"]
  by (simp add: sample_Extern_def Read_Opcode_def Read_raw_def bindE_def)

subsection \<open>Binary operators\<close>

text \<open>
  C3.  For every binary-operator opcode, arithmetic and comparison, the machine pops the
  right-hand operand first, then the left-hand operand, and pushes the result computed
  as \<open>lhs <op> rhs\<close> (when that expression has a value; otherwise the execution stops
  and nothing is pushed).  In particular \<open>SUB\<close> pushes \<open>lhs - rhs\<close> and \<open>DIV\<close> pushes
  \<open>lhs / rhs\<close>, of the second-popped over the first-popped value.
\<close>

theorem binary_operator_operand_order:
  assumes "op \<in> set binary_ops"
    and "Read_Opcode X prog st0 = Inr (Some op, st)"
    and "stack st0 = s @ [Val_Int lhs, Val_Int rhs]"
  shows "(case spec_binop op (sint lhs) (sint rhs) of
            Some r \<Rightarrow>
              step X prog st0 = Inr (Continue (st\<lparr>stack := s @ [Val_Int (word_of_int r)]\<rparr>))
          | None \<Rightarrow> isl (step X prog st0))
     \<and> (op = SUB \<longrightarrow>
          step X prog st0 = Inr (Continue (st\<lparr>stack := s @ [Val_Int (lhs - rhs)]\<rparr>)))
     \<and> (op = DIV \<and> rhs \<noteq> 0 \<and> (lhs \<noteq> INT64_MIN \<or> rhs \<noteq> - 1) \<longrightarrow>
          step X prog st0
            = Inr (Continue (st\<lparr>stack := s @ [Val_Int (word_of_int (sint lhs sdiv sint rhs))]\<rparr>)))"
proof -
  have st: "stack st = s @ [Val_Int lhs, Val_Int rhs]"
    using assms(2,3) by (simp add: Read_Opcode_stack)
  have run: "step X prog st0 = Run_case X prog (Some op) st"
    using assms(2) by (rule step_Read)
  note bin = Run_case_binary [OF assms(1) st, of X prog]
  have 1: "case spec_binop op (sint lhs) (sint rhs) of
            Some r \<Rightarrow>
              step X prog st0 = Inr (Continue (st\<lparr>stack := s @ [Val_Int (word_of_int r)]\<rparr>))
          | None \<Rightarrow> isl (step X prog st0)"
    by (cases "spec_binop op (sint lhs) (sint rhs)") (simp_all add: run bin)
  have 2: "step X prog st0 = Inr (Continue (st\<lparr>stack := s @ [Val_Int (lhs - rhs)]\<rparr>))"
    if "op = SUB"
    using that bin by (simp add: run spec_binop_def)
  have 3: "step X prog st0
            = Inr (Continue (st\<lparr>stack := s @ [Val_Int (word_of_int (sint lhs sdiv sint rhs))]\<rparr>))"
    if "op = DIV \<and> rhs \<noteq> 0 \<and> (lhs \<noteq> INT64_MIN \<or> rhs \<noteq> - 1)"
    using that by (auto simp: run PopInt_two [OF st] div_int64_def bindE_Inr Push_def)
  from 1 2 3 show ?thesis by blast
qed

theorem binary_operator_operand_order_witness:
  "step sample_Extern [7] \<lparr>pc = 0, stack = [Val_Int 8, Val_Int 3]\<rparr>
     = Inr (Continue \<lparr>pc = 1, stack = [Val_Int 5]\<rparr>)
   \<and> step sample_Extern [9] \<lparr>pc = 0, stack = [Val_Int (- 7), Val_Int 2]\<rparr>
     = Inr (Continue \<lparr>pc = 1, stack = [Val_Int (- 3)]\<rparr>)"
  using binary_operator_operand_order [of SUB sample_Extern "[7]"
      "\<lparr>pc = 0, stack = [Val_Int 8, Val_Int 3]\<rparr>" "\<lparr>pc = 1, stack = [Val_Int 8, Val_Int 3]\<rparr>"
      "[]" 8 3]
    binary_operator_operand_order [of DIV sample_Extern "[9]"
      "\<lparr>pc = 0, stack = [Val_Int (- 7), Val_Int 2]\<rparr>"
      "\<lparr>pc = 1, stack = [Val_Int (- 7), Val_Int 2]\<rparr>" "[]" "- 7" 2]
  by (simp add: sample_Extern_def Read_Opcode_def Read_raw_def bindE_def binary_ops_def
      INT64_MIN_def signed_divide_int_def)

subsection \<open>Overflow test of ADD and SUB\<close>

text \<open>
  C4.  The claim: the test of \<open>ADD\<close> and \<open>SUB\<close> holds exactly when the mathematical value
  of \<open>lhs + rhs\<close>, or of \<open>lhs - rhs\<close>, lies outside the signed 64-bit range.  The test of
  the code holds for \<open>INT64_MAX + 1\<close>, as the claim says; but it does not hold for
  \<open>INT64_MIN + INT64_MIN\<close>, whose sum \<open>- 2^64\<close> is out of range (the result wraps to 0
  and the test asks for a result above 0); for \<open>SUB\<close>, which applies the test of the
  sum, it holds for \<open>1 - 2\<close>, which is in range, and does not hold for
  \<open>INT64_MAX - (- 1)\<close>, which is out of range.
\<close>

theorem overflow_test_misses:
  "overflow_test 1 INT64_MAX (1 + INT64_MAX)
   \<and> \<not> overflow_test INT64_MIN INT64_MIN (INT64_MIN + INT64_MIN)
   \<and> sint INT64_MIN + sint INT64_MIN < - (2 ^ 63)
   \<and> overflow_test 2 1 (1 - 2)
   \<and> - (2 ^ 63) \<le> sint (1 :: int64_t) - sint (2 :: int64_t)
   \<and> sint (1 :: int64_t) - sint (2 :: int64_t) < 2 ^ 63
   \<and> \<not> overflow_test (- 1) INT64_MAX (INT64_MAX - (- 1))
   \<and> 2 ^ 63 \<le> sint INT64_MAX - sint (- 1 :: int64_t)
   \<and> overflow_diagnostic (- 1) INT64_MAX (INT64_MAX - (- 1)) = None"
  by (simp add: overflow_test_def overflow_diagnostic_def INT64_MIN_def INT64_MAX_def word_sless_alt)

subsection \<open>JUMP_FALSE\<close>

text \<open>
  C7.  Executing \<open>JUMP_FALSE(addr)\<close> with an \<open>Integer\<close> condition on top of the stack pops
  the condition and reads the address operand; the program counter becomes \<open>addr\<close> if
  the condition is \<open>Integer(0)\<close>, and otherwise the offset right after the address
  operand.  So, unless \<open>addr\<close> is that very offset, the program counter becomes \<open>addr\<close>
  if and only if the condition is \<open>Integer(0)\<close>.
\<close>

theorem JUMP_FALSE_integer:
  assumes "Read_Opcode X prog st0 = Inr (Some JUMP_FALSE, st1)"
    and "stack st0 = s @ [Val_Int c]"
    and "Read_size_t prog st1 = Inr (addr, st2)"
  shows "step X prog st0
       = Inr (Continue (st2\<lparr>stack := s, pc := (if c = 0 then addr else pc st2)\<rparr>))
     \<and> pc st2 = pc st0 + of_nat (Opcode_size X) + 8
     \<and> (addr \<noteq> pc st2 \<longrightarrow>
          ((if c = 0 then addr else pc st2) = addr \<longleftrightarrow> Val_Int c = Val_Int 0))"
proof -
  have "stack st1 = s @ [Val_Int c]"
    using assms(1,2) by (simp add: Read_Opcode_stack)
  then have pop: "Pop st1 = Inr (Val_Int c, st1\<lparr>stack := s\<rparr>)"
    by (rule Pop_snoc)
  have rd: "Read_size_t prog (st1\<lparr>stack := s\<rparr>) = Inr (addr, st2\<lparr>stack := s\<rparr>)"
    using assms(3) by (rule Read_size_t_update_stack)
  have "step X prog st0 = Run_case X prog (Some JUMP_FALSE) st1"
    using assms(1) by (rule step_Read)
  also have "\<dots> = Inr (Continue (st2\<lparr>stack := s, pc := (if c = 0 then addr else pc st2)\<rparr>))"
    by (simp add: pop rd bindE_Inr to_bool_def)
  finally have 1: "step X prog st0
       = Inr (Continue (st2\<lparr>stack := s, pc := (if c = 0 then addr else pc st2)\<rparr>))" .
  have 2: "pc st2 = pc st0 + of_nat (Opcode_size X) + 8"
    using Read_Opcode_pc [OF assms(1)] Read_size_t_pc [OF assms(3)] by simp
  from 1 2 show ?thesis by auto
qed

theorem JUMP_FALSE_integer_witness:
  "step sample_Extern [18, 0x2A, 0, 0, 0, 0, 0, 0, 0] \<lparr>pc = 0, stack = [Val_Int 7, Val_Int 0]\<rparr>
     = Inr (Continue \<lparr>pc = 42, stack = [Val_Int 7]\<rparr>)
   \<and> step sample_Extern [18, 0x2A, 0, 0, 0, 0, 0, 0, 0] \<lparr>pc = 0, stack = [Val_Int 7, Val_Int 5]\<rparr>
     = Inr (Continue \<lparr>pc = 9, stack = [Val_Int 7]\<rparr>)"
  using JUMP_FALSE_integer [of sample_Extern "[18, 0x2A, 0, 0, 0, 0, 0, 0, 0]"
      "\<lparr>pc = 0, stack = [Val_Int 7, Val_Int 0]\<rparr>" "\<lparr>pc = 1, stack = [Val_Int 7, Val_Int 0]\<rparr>"
      "[Val_Int 7]" 0 42 "\<lparr>pc = 9, stack = [Val_Int 7, Val_Int 0]\<rparr>"]
    JUMP_FALSE_integer [of sample_Extern "[18, 0x2A, 0, 0, 0, 0, 0, 0, 0]"
      "\<lparr>pc = 0, stack = [Val_Int 7, Val_Int 5]\<rparr>" "\<lparr>pc = 1, stack = [Val_Int 7, Val_Int 5]\<rparr>"
      "[Val_Int 7]" 5 42 "\<lparr>pc = 9, stack = [Val_Int 7, Val_Int 5]\<rparr>"]
  by (simp add: sample_Extern_def Read_Opcode_def Read_size_t_def Read_raw_def bindE_def)

subsection \<open>Frame of the binary operators\<close>

text \<open>
  C8 (as stated).  The claim: every arithmetic and comparison opcode, on a stack whose
  top two values are integers, leaves the stack one value shorter.  \<open>DIV\<close> on the stack
  \<open>[1, 0]\<close> divides by zero: the step ends without a stack.
\<close>

theorem binary_operator_frame_counterexample:
  "step sample_Extern [9] \<lparr>pc = 0, stack = [Val_Int 1, Val_Int 0]\<rparr>
     = Inl (Undefined ''division by zero'')"
  by (simp add: step_def sample_Extern_def Read_Opcode_def Read_raw_def bindE_def
      PopInt_def Pop_def div_int64_def)

text \<open>
  C8 (amended).  Every arithmetic and comparison opcode, executed on a stack of height
  at least 2 whose top two values are integers, and for \<open>DIV\<close> and \<open>MOD\<close> with a divisor
  that is not zero and operands that are not \<open>INT64_MIN\<close> and \<open>-1\<close>, leaves the stack
  exactly one value shorter and every slot below the top two unchanged: the two operands
  are replaced by one integer result.
\<close>

theorem binary_operator_frame:
  assumes "op \<in> set binary_ops"
    and "Read_Opcode X prog st0 = Inr (Some op, st)"
    and "stack st0 = s @ [Val_Int lhs, Val_Int rhs]"
    and "op = DIV \<or> op = MOD \<Longrightarrow> rhs \<noteq> 0 \<and> (lhs \<noteq> INT64_MIN \<or> rhs \<noteq> - 1)"
  shows "\<exists>st' r. step X prog st0 = Inr (Continue st')
     \<and> stack st' = s @ [Val_Int r]
     \<and> length (stack st') + 1 = length (stack st0)
     \<and> take (length (stack st0) - 2) (stack st') = take (length (stack st0) - 2) (stack st0)"
proof -
  have st: "stack st = s @ [Val_Int lhs, Val_Int rhs]"
    using assms(2,3) by (simp add: Read_Opcode_stack)
  have run: "step X prog st0 = Run_case X prog (Some op) st"
    using assms(2) by (rule step_Read)
  have "spec_binop op (sint lhs) (sint rhs) \<noteq> None"
  proof (cases "op = DIV \<or> op = MOD")
    case True
    with assms(4) have g: "rhs \<noteq> 0" "lhs \<noteq> INT64_MIN \<or> rhs \<noteq> - 1" by auto
    then have "\<not> 2 ^ 63 \<le> sint lhs sdiv sint rhs"
      using sdiv_overflow_iff [OF sint_lower [of lhs] sint_upper [of lhs], of "sint rhs"]
      by (simp add: INT64_MIN_iff minus_one_iff zero_iff)
    with True g show ?thesis by (auto simp: spec_binop_def zero_iff)
  next
    case False
    with assms(1) show ?thesis by (auto simp: spec_binop_def binary_ops_def)
  qed
  then obtain r where r: "spec_binop op (sint lhs) (sint rhs) = Some r" by auto
  have "step X prog st0 = Inr (Continue (st\<lparr>stack := s @ [Val_Int (word_of_int r)]\<rparr>))"
    using Run_case_binary [OF assms(1) st, of X prog] by (simp add: run r)
  then show ?thesis using assms(3) by auto
qed

theorem binary_operator_frame_witness:
  "\<exists>st' r. step sample_Extern [9] \<lparr>pc = 0, stack = [Val_Addr 4, Val_Int 7, Val_Int 2]\<rparr>
       = Inr (Continue st')
     \<and> stack st' = [Val_Addr 4] @ [Val_Int r]
     \<and> length (stack st') + 1 = length [Val_Addr 4, Val_Int 7, Val_Int 2]
     \<and> take (length [Val_Addr 4, Val_Int 7, Val_Int 2] - 2) (stack st')
         = take (length [Val_Addr 4, Val_Int 7, Val_Int 2] - 2) [Val_Addr 4, Val_Int 7, Val_Int 2]"
  using binary_operator_frame [of DIV sample_Extern "[9]"
      "\<lparr>pc = 0, stack = [Val_Addr 4, Val_Int 7, Val_Int 2]\<rparr>"
      "\<lparr>pc = 1, stack = [Val_Addr 4, Val_Int 7, Val_Int 2]\<rparr>" "[Val_Addr 4]" 7 2]
  by (simp add: sample_Extern_def Read_Opcode_def Read_raw_def bindE_def binary_ops_def)

section \<open>Properties of the parser\<close>

lemmas lexer_simps =
  Lexer_of_def Next_def Current_def GetToken_def Is_def Token_bool_def
  Token_of_def Token_Ident_def Token_Int_def Check_def Expect_def
  GetIdent_def GetInt_def bindP_def bindE_def Done_def Let_def

lemmas expr_simps =
  ParseCompExpr_def ParseAddSubExpr_def ParseMulDivExpr_def ParseCallExpr_def
  ParseTermExpr_def

subsection \<open>Blocks\<close>

text \<open>
  C5 (as stated).  The claim: parsing the block \<open>{ a; b c }\<close> produces a \<open>BlockStmt\<close> with
  the statements \<open>[a, b]\<close>.  The parser produces no statement: after \<open>b\<close> it requires the
  closing brace, finds \<open>c\<close> and throws.
\<close>

theorem block_truncation_counterexample:
  "ParseBlockStmt 10
     (Lexer_of [Token_of (at_column 1) LBRACE, Token_Ident (at_column 3) ''a'',
                Token_of (at_column 4) SEMI, Token_Ident (at_column 6) ''b'',
                Token_Ident (at_column 8) ''c'', Token_of (at_column 10) RBRACE]
        (at_column 11))
   = Some (Inl (ParserError (at_column 8) (Token_Ident (at_column 8) ''c'') (ExpectingKind RBRACE)))"
  by (simp add: numeral_eq_Suc lexer_simps expr_simps)

text \<open>
  C5 (amended).  Parsing the block \<open>{ a; b c }\<close>, whatever follows \<open>c\<close>, collects exactly
  the two statements \<open>[a, b]\<close> and stops at the token \<open>c\<close>, which is not consumed; the
  closing brace is required next, so the parse fails with the error "unexpected c,
  expecting \<open>}\<close>" at \<open>c\<close> and no \<open>BlockStmt\<close> is produced.
\<close>

theorem block_truncation:
  "ParseBlockStmt_loop (k + 8) []
     (Lexer_of ([Token_of l0 LBRACE, Token_Ident l1 a, Token_of l2 SEMI, Token_Ident l3 b,
                 Token_Ident l4 c] @ rest) e)
   = Done ([ExprStmt (RefExpr a), ExprStmt (RefExpr b)],
           \<lparr>current_tk = Token_Ident l4 c, pending = rest, end_loc = e\<rparr>)
   \<and> ParseBlockStmt (k + 9)
     (Lexer_of ([Token_of l0 LBRACE, Token_Ident l1 a, Token_of l2 SEMI, Token_Ident l3 b,
                 Token_Ident l4 c] @ rest) e)
   = Some (Inl (ParserError l4 (Token_Ident l4 c) (ExpectingKind RBRACE)))"
  by (simp add: numeral_eq_Suc lexer_simps expr_simps)

subsection \<open>Precedence and associativity\<close>

text \<open>
  C6.  Parsing the token stream \<open>1 + 2 * 3\<close> yields \<open>ADD(IntExpr 1, MUL(IntExpr 2,
  IntExpr 3))\<close> and not \<open>MUL(ADD(1, 2), 3)\<close>, for these and any other three literals: the
  multiplicative level binds tighter than the additive level, also when the product
  comes first, and each level combines its subterms to the left.  This holds for
  \<open>ParseAddSubExpr\<close>, whatever parses a nested expression, and for \<open>ParseExpr\<close>, with any
  bound of at least 5, or 6; \<open>Lexer_of [] e\<close> is the lexer at the end of the input.
\<close>

theorem precedence_and_associativity:
  "ParseAddSubExpr expr (k + 5)
     (Lexer_of [Token_Int l1 1, Token_of l2 PLUS, Token_Int l3 2, Token_of l4 MULTIPLY,
                Token_Int l5 3] e)
   = Done (BinaryExpr ADD_kind (IntExpr 1) (BinaryExpr MUL_kind (IntExpr 2) (IntExpr 3)),
           Lexer_of [] e)
   \<and> ParseAddSubExpr expr (k + 5)
     (Lexer_of [Token_Int l1 1, Token_of l2 PLUS, Token_Int l3 2, Token_of l4 MULTIPLY,
                Token_Int l5 3] e)
   \<noteq> Done (BinaryExpr MUL_kind (BinaryExpr ADD_kind (IntExpr 1) (IntExpr 2)) (IntExpr 3),
           Lexer_of [] e)
   \<and> ParseExpr (k + 6)
     (Lexer_of [Token_Int l1 x, Token_of l2 PLUS, Token_Int l3 y, Token_of l4 MULTIPLY,
                Token_Int l5 z] e)
   = Done (BinaryExpr ADD_kind (IntExpr x) (BinaryExpr MUL_kind (IntExpr y) (IntExpr z)),
           Lexer_of [] e)
   \<and> ParseExpr (k + 6)
     (Lexer_of [Token_Int l1 x, Token_of l2 MULTIPLY, Token_Int l3 y, Token_of l4 PLUS,
                Token_Int l5 z] e)
   = Done (BinaryExpr ADD_kind (BinaryExpr MUL_kind (IntExpr x) (IntExpr y)) (IntExpr z),
           Lexer_of [] e)
   \<and> ParseAddSubExpr expr (k + 5)
     (Lexer_of [Token_Int l1 x, Token_of l2 MINUS, Token_Int l3 y, Token_of l4 MINUS,
                Token_Int l5 z] e)
   = Done (BinaryExpr SUB_kind (BinaryExpr SUB_kind (IntExpr x) (IntExpr y)) (IntExpr z),
           Lexer_of [] e)
   \<and> ParseMulDivExpr expr (k + 5)
     (Lexer_of [Token_Int l1 x, Token_of l2 DIVIDE, Token_Int l3 y, Token_of l4 DIVIDE,
                Token_Int l5 z] e)
   = Done (BinaryExpr DIV_kind (BinaryExpr DIV_kind (IntExpr x) (IntExpr y)) (IntExpr z),
           Lexer_of [] e)"
  by (simp add: numeral_eq_Suc lexer_simps expr_simps)

subsection \<open>The empty module\<close>

text \<open>
  C9.  If the very first token of the input is the \<open>END\<close> token, \<open>ParseModule\<close> returns a
  module whose top-level body is empty and raises no error.
\<close>

theorem empty_module:
  assumes "kind (Current lexer) = END"
  shows "ParseModule (Suc n) lexer = Some (Inr (Module [], lexer))"
  using assms by (simp add: ParseModule_def Token_bool_def bindP_def Done_def)

theorem empty_module_witness:
  "kind (Current (Lexer_of [Token_of (at_column 1) END] (at_column 1))) = END
   \<and> ParseModule (Suc 0) (Lexer_of [Token_of (at_column 1) END] (at_column 1))
     = Some (Inr (Module [], Lexer_of [Token_of (at_column 1) END] (at_column 1)))
   \<and> ParseModule (Suc 0) (Lexer_of [] (at_column 1))
     = Some (Inr (Module [], Lexer_of [] (at_column 1)))"
  using empty_module [of "Lexer_of [Token_of (at_column 1) END] (at_column 1)" 0]
    empty_module [of "Lexer_of [] (at_column 1)" 0]
  by (simp add: Lexer_of_def Next_def Current_def GetToken_def Token_of_def)

subsection \<open>Auxiliary facts on argument lists\<close>

lemma arg_tokens_Nil: "arg_tokens [] = []"
  by (simp add: arg_tokens_def)

lemma arg_tokens_Cons:
  "arg_tokens ((la, a, lc) # items) = Token_Ident la a # Token_of lc COMMA # arg_tokens items"
  by (simp add: arg_tokens_def)

lemma arg_tokens_snoc:
  "arg_tokens (items @ [(la, a, lc)]) = arg_tokens items @ [Token_Ident la a, Token_of lc COMMA]"
  by (simp add: arg_tokens_def)

text \<open>An identifier followed by a comma or a closing parenthesis is an expression.\<close>

lemma ParseExpr_ident:
  assumes "k = COMMA \<or> k = RPAREN"
  shows "ParseExpr (Suc (Suc j))
      \<lparr>current_tk = Token_Ident la a, pending = Token_of lc k # rest, end_loc = e\<rparr>
     = Done (RefExpr a, \<lparr>current_tk = Token_of lc k, pending = rest, end_loc = e\<rparr>)"
  using assms by (auto simp: lexer_simps expr_simps)

text \<open>
  The loop over the arguments, for an argument parser that reads identifiers: on
  arguments that are each followed by a comma, and on arguments separated by commas.
\<close>

lemma args_loop_trailing:
  assumes expr: "\<And>la a lc k rest. k = COMMA \<or> k = RPAREN \<Longrightarrow>
      expr \<lparr>current_tk = Token_Ident la a, pending = Token_of lc k # rest, end_loc = e\<rparr>
        = Done (RefExpr a, \<lparr>current_tk = Token_of lc k, pending = rest, end_loc = e\<rparr>)"
  shows "ParseCallExpr_args expr (Suc (length items + m)) args
      \<lparr>current_tk = c, pending = arg_tokens items @ Token_of lr RPAREN # rest, end_loc = e\<rparr>
     = Done (args @ map (\<lambda>x. RefExpr (fst (snd x))) items,
             \<lparr>current_tk = Token_of lr RPAREN, pending = rest, end_loc = e\<rparr>)"
proof (induction items arbitrary: args c)
  case Nil
  show ?case
    by (simp add: arg_tokens_Nil Next_def Current_def GetToken_def Is_def Token_of_def Done_def)
next
  case (Cons x items)
  obtain la a lc where x: "x = (la, a, lc)" by (cases x) auto
  have arg: "expr
      \<lparr>current_tk = Token_Ident la a,
         pending = Token_of lc COMMA # arg_tokens items @ Token_of lr RPAREN # rest, end_loc = e\<rparr>
     = Done (RefExpr a, \<lparr>current_tk = Token_of lc COMMA,
         pending = arg_tokens items @ Token_of lr RPAREN # rest, end_loc = e\<rparr>)"
    by (rule expr) simp
  have "ParseCallExpr_args expr (Suc (Suc (length items + m))) args
      \<lparr>current_tk = c, pending = arg_tokens (x # items) @ Token_of lr RPAREN # rest, end_loc = e\<rparr>
     = ParseCallExpr_args expr (Suc (length items + m)) (args @ [RefExpr a])
      \<lparr>current_tk = Token_of lc COMMA,
         pending = arg_tokens items @ Token_of lr RPAREN # rest, end_loc = e\<rparr>"
    apply (subst ParseCallExpr_args.simps(2))
    apply (simp only: x arg_tokens_Cons Next_def Lexer.simps list.case append_Cons Let_def arg)
    apply (simp add: Current_def GetToken_def Is_def Token_Ident_def Token_of_def Done_def bindP_def
        del: ParseCallExpr_args.simps)
    done
  then show ?case
    by (simp add: Cons.IH x del: ParseCallExpr_args.simps)
qed

lemma args_loop_plain:
  assumes expr: "\<And>la a lc k rest. k = COMMA \<or> k = RPAREN \<Longrightarrow>
      expr \<lparr>current_tk = Token_Ident la a, pending = Token_of lc k # rest, end_loc = e\<rparr>
        = Done (RefExpr a, \<lparr>current_tk = Token_of lc k, pending = rest, end_loc = e\<rparr>)"
  shows "ParseCallExpr_args expr (Suc (length items + m)) args
      \<lparr>current_tk = c,
         pending = arg_tokens items @ Token_Ident la a # Token_of lr RPAREN # rest, end_loc = e\<rparr>
     = Done (args @ map (\<lambda>x. RefExpr (fst (snd x))) items @ [RefExpr a],
             \<lparr>current_tk = Token_of lr RPAREN, pending = rest, end_loc = e\<rparr>)"
proof (induction items arbitrary: args c)
  case Nil
  have arg: "expr
      \<lparr>current_tk = Token_Ident la a, pending = Token_of lr RPAREN # rest, end_loc = e\<rparr>
     = Done (RefExpr a, \<lparr>current_tk = Token_of lr RPAREN, pending = rest, end_loc = e\<rparr>)"
    by (rule expr) simp
  show ?case
    apply (simp only: list.size add_0 arg_tokens_Nil append_Nil list.map)
    apply (subst ParseCallExpr_args.simps(2))
    apply (simp only: Next_def Lexer.simps list.case Let_def arg)
    apply (simp add: Current_def GetToken_def Is_def Token_Ident_def Token_of_def Done_def bindP_def
        del: ParseCallExpr_args.simps)
    done
next
  case (Cons x items)
  obtain la' a' lc' where x: "x = (la', a', lc')" by (cases x) auto
  have arg: "expr
      \<lparr>current_tk = Token_Ident la' a',
         pending = Token_of lc' COMMA # arg_tokens items @ Token_Ident la a # Token_of lr RPAREN # rest,
         end_loc = e\<rparr>
     = Done (RefExpr a', \<lparr>current_tk = Token_of lc' COMMA,
         pending = arg_tokens items @ Token_Ident la a # Token_of lr RPAREN # rest, end_loc = e\<rparr>)"
    by (rule expr) simp
  have "ParseCallExpr_args expr (Suc (Suc (length items + m))) args
      \<lparr>current_tk = c,
         pending = arg_tokens (x # items) @ Token_Ident la a # Token_of lr RPAREN # rest,
         end_loc = e\<rparr>
     = ParseCallExpr_args expr (Suc (length items + m)) (args @ [RefExpr a'])
      \<lparr>current_tk = Token_of lc' COMMA,
         pending = arg_tokens items @ Token_Ident la a # Token_of lr RPAREN # rest, end_loc = e\<rparr>"
    apply (subst ParseCallExpr_args.simps(2))
    apply (simp only: x arg_tokens_Cons Next_def Lexer.simps list.case append_Cons Let_def arg)
    apply (simp add: Current_def GetToken_def Is_def Token_Ident_def Token_of_def Done_def bindP_def
        del: ParseCallExpr_args.simps)
    done
  then show ?case
    by (simp add: Cons.IH x del: ParseCallExpr_args.simps)
qed

text \<open>The loop over the arguments ends at a closing parenthesis, whatever came before.\<close>

lemma args_loop_exit:
  assumes "Is (Current (Next lexer)) RPAREN"
  shows "ParseCallExpr_args expr (Suc n) args lexer = Done (args, Next lexer)"
  using assms by (simp add: Let_def)

lemma args_loop_last:
  assumes "\<not> Is (Current (Next lexer)) RPAREN"
    and "expr (Next lexer) = Done (x, lx)"
  shows "Is (Current lx) COMMA \<and> Is (Current (Next lx)) RPAREN \<longrightarrow>
       ParseCallExpr_args expr (Suc (Suc n)) args lexer = Done (args @ [x], Next lx)"
    and "Is (Current lx) RPAREN \<longrightarrow>
       ParseCallExpr_args expr (Suc n) args lexer = Done (args @ [x], lx)"
  using assms by (auto simp: Let_def bindP_def Done_def Is_def)

text \<open>A call whose argument list ends at the closing parenthesis is accepted.\<close>

lemma call_loop_accepts:
  assumes "Is (Current lexer) LPAREN"
    and "ParseCallExpr_args expr (Suc n) [] lexer = Done (as, lx)"
    and "Is (Current lx) RPAREN"
    and "\<not> Is (Current (Next lx)) LPAREN"
  shows "ParseCallExpr_loop expr (Suc (Suc n)) callee lexer = Done (CallExpr callee as, Next lx)"
  using assms(1,3,4)
  by (simp add: assms(2) bindP_def Done_def Check_def Is_def Let_def del: ParseCallExpr_args.simps)

text \<open>An expression that is a call followed by the end of the input.\<close>

lemma bindP_Done: "bindP (Done x) f = f x"
  by (simp add: bindP_def Done_def)

lemma call_at_end:
  assumes "ParseTermExpr expr lexer = Done (callee, lx0)"
    and "ParseCallExpr_loop expr (Suc n) callee lx0 = Done (x, lx)"
    and "kind (Current lx) = END"
  shows "ParseCompExpr expr (Suc n) lexer = Done (x, lx)"
  using assms(3)
  by (simp add: assms(1,2) ParseCompExpr_def ParseAddSubExpr_def ParseMulDivExpr_def
      ParseCallExpr_def bindP_Done Is_def del: ParseCallExpr_loop.simps)

subsection \<open>Trailing comma in a call\<close>

text \<open>
  C10.  A call argument list with a trailing comma right before the closing parenthesis
  is accepted rather than rejected.  Whatever parses an argument and whatever arguments
  have been collected: the loop over the arguments ends without an error when the token
  after a comma is the closing parenthesis; a last argument followed by a comma and the
  parenthesis gives the same list, at the same parenthesis, as a last argument followed
  by the parenthesis alone; and a list that ends at the parenthesis makes a \<open>CallExpr\<close>.
  For the parser itself: a call with any number of identifier arguments, each followed
  by a comma, parses to the same \<open>CallExpr\<close> as the call without the last comma; for
  example \<open>f(a,)\<close> parses to \<open>CallExpr(RefExpr f, [a])\<close>, the same result as \<open>f(a)\<close>.
\<close>

theorem call_trailing_comma:
  "(Is (Current lexer0) COMMA \<and> Is (Current (Next lexer0)) RPAREN \<longrightarrow>
      ParseCallExpr_args expr (Suc n) args lexer0 = Done (args, Next lexer0))
   \<and> (\<not> Is (Current (Next lexer1)) RPAREN \<and> expr (Next lexer1) = Done (x, lx)
        \<and> Is (Current lx) COMMA \<and> Is (Current (Next lx)) RPAREN \<longrightarrow>
      ParseCallExpr_args expr (Suc (Suc n)) args lexer1 = Done (args @ [x], Next lx))
   \<and> (\<not> Is (Current (Next lexer1)) RPAREN \<and> expr (Next lexer1) = Done (x, lx')
        \<and> Is (Current lx') RPAREN \<longrightarrow>
      ParseCallExpr_args expr (Suc n) args lexer1 = Done (args @ [x], lx'))
   \<and> (Is (Current lexer2) LPAREN \<and> ParseCallExpr_args expr (Suc n) [] lexer2 = Done (as, lx2)
        \<and> Is (Current lx2) RPAREN \<and> \<not> Is (Current (Next lx2)) LPAREN \<longrightarrow>
      ParseCallExpr_loop expr (Suc (Suc n)) callee lexer2 = Done (CallExpr callee as, Next lx2))
   \<and> ParseExpr (length items + k + 4)
     (Lexer_of ([Token_Ident lf f, Token_of lp LPAREN] @ arg_tokens (items @ [(la, a, lc)])
                @ [Token_of lr RPAREN]) e)
   = Done (CallExpr (RefExpr f) (map (\<lambda>x. RefExpr (fst (snd x))) items @ [RefExpr a]),
           Lexer_of [] e)
   \<and> ParseExpr (length items + k + 4)
     (Lexer_of ([Token_Ident lf f, Token_of lp LPAREN] @ arg_tokens items
                @ [Token_Ident la a, Token_of lr RPAREN]) e)
   = Done (CallExpr (RefExpr f) (map (\<lambda>x. RefExpr (fst (snd x))) items @ [RefExpr a]),
           Lexer_of [] e)
   \<and> ParseExpr (k + 8)
     (Lexer_of [Token_Ident l1 f, Token_of l2 LPAREN, Token_Ident l3 a, Token_of l4 COMMA,
                Token_of l5 RPAREN] e)
   = Done (CallExpr (RefExpr f) [RefExpr a], Lexer_of [] e)
   \<and> ParseExpr (k + 8)
     (Lexer_of [Token_Ident l1 f, Token_of l2 LPAREN, Token_Ident l3 a, Token_of l5 RPAREN] e)
   = Done (CallExpr (RefExpr f) [RefExpr a], Lexer_of [] e)
   \<and> ParseCallExpr (ParseExpr (k + 7)) (k + 3)
     (Lexer_of [Token_Ident l1 f, Token_of l2 LPAREN, Token_Ident l3 a, Token_of l4 COMMA,
                Token_of l5 RPAREN] e)
   = Done (CallExpr (RefExpr f) [RefExpr a], Lexer_of [] e)"
proof -
  let ?expr = "ParseExpr (Suc (Suc (Suc (length items + k))))"
  let ?as = "map (\<lambda>x. RefExpr (fst (snd x))) items @ [RefExpr a]"
  let ?fin = "\<lparr>current_tk = \<lparr>loc = e, kind = END, val = NoValue\<rparr>, pending = [], end_loc = e\<rparr>"
  let ?rparen = "\<lparr>current_tk = Token_of lr RPAREN, pending = [], end_loc = e\<rparr>"
  have 1: "Is (Current lexer0) COMMA \<and> Is (Current (Next lexer0)) RPAREN \<longrightarrow>
      ParseCallExpr_args expr (Suc n) args lexer0 = Done (args, Next lexer0)"
    using args_loop_exit [of lexer0 expr n args] by blast
  have 2: "\<not> Is (Current (Next lexer1)) RPAREN \<and> expr (Next lexer1) = Done (x, lx)
        \<and> Is (Current lx) COMMA \<and> Is (Current (Next lx)) RPAREN \<longrightarrow>
      ParseCallExpr_args expr (Suc (Suc n)) args lexer1 = Done (args @ [x], Next lx)"
    using args_loop_last(1) [of lexer1 expr x lx n args] by blast
  have 3: "\<not> Is (Current (Next lexer1)) RPAREN \<and> expr (Next lexer1) = Done (x, lx')
        \<and> Is (Current lx') RPAREN \<longrightarrow>
      ParseCallExpr_args expr (Suc n) args lexer1 = Done (args @ [x], lx')"
    using args_loop_last(2) [of lexer1 expr x lx' n args] by blast
  have 4: "Is (Current lexer2) LPAREN \<and> ParseCallExpr_args expr (Suc n) [] lexer2 = Done (as, lx2)
        \<and> Is (Current lx2) RPAREN \<and> \<not> Is (Current (Next lx2)) LPAREN \<longrightarrow>
      ParseCallExpr_loop expr (Suc (Suc n)) callee lexer2 = Done (CallExpr callee as, Next lx2)"
    using call_loop_accepts [of lexer2 expr n as lx2 callee] by blast
  have fuel: "length items + k + 4 = Suc (Suc (Suc (Suc (length items + k))))"
    by simp
  have ident: "\<And>la a lc k rest. k = COMMA \<or> k = RPAREN \<Longrightarrow>
      ?expr \<lparr>current_tk = Token_Ident la a, pending = Token_of lc k # rest, end_loc = e\<rparr>
        = Done (RefExpr a, \<lparr>current_tk = Token_of lc k, pending = rest, end_loc = e\<rparr>)"
    by (rule ParseExpr_ident)
  have end_eq: "Lexer_of [] e = ?fin" "Next ?rparen = ?fin"
    by (simp_all add: Lexer_of_def Next_def)
  have after: "Is (Current ?rparen) RPAREN" "\<not> Is (Current (Next ?rparen)) LPAREN"
      "kind (Current ?fin) = END"
    by (simp_all add: Is_def Current_def GetToken_def Next_def Token_of_def)
  have 5: "ParseExpr (length items + k + 4)
     (Lexer_of ([Token_Ident lf f, Token_of lp LPAREN] @ arg_tokens (items @ [(la, a, lc)])
                @ [Token_of lr RPAREN]) e) = Done (CallExpr (RefExpr f) ?as, Lexer_of [] e)"
  proof -
    let ?l0 = "\<lparr>current_tk = Token_Ident lf f,
        pending = Token_of lp LPAREN # arg_tokens (items @ [(la, a, lc)]) @ [Token_of lr RPAREN],
        end_loc = e\<rparr>"
    let ?l1 = "\<lparr>current_tk = Token_of lp LPAREN,
        pending = arg_tokens (items @ [(la, a, lc)]) @ [Token_of lr RPAREN], end_loc = e\<rparr>"
    have l0: "Lexer_of ([Token_Ident lf f, Token_of lp LPAREN] @ arg_tokens (items @ [(la, a, lc)])
                @ [Token_of lr RPAREN]) e = ?l0"
      by (simp add: Lexer_of_def Next_def)
    have callee: "ParseTermExpr ?expr ?l0 = Done (RefExpr f, ?l1)"
      by (simp add: ParseTermExpr_def lexer_simps)
    have "ParseCallExpr_args ?expr (Suc (length (items @ [(la, a, lc)]) + k)) [] ?l1
        = Done ([] @ map (\<lambda>x. RefExpr (fst (snd x))) (items @ [(la, a, lc)]), ?rparen)"
      using ident by (rule args_loop_trailing)
    then have args: "ParseCallExpr_args ?expr (Suc (Suc (length items + k))) [] ?l1
        = Done (?as, ?rparen)"
      by simp
    have "Is (Current ?l1) LPAREN"
      by (simp add: Is_def Current_def GetToken_def Token_of_def)
    then have "ParseCallExpr_loop ?expr (Suc (Suc (Suc (length items + k)))) (RefExpr f) ?l1
        = Done (CallExpr (RefExpr f) ?as, Next ?rparen)"
      using args after(1,2) by (rule call_loop_accepts)
    then have loop: "ParseCallExpr_loop ?expr (Suc (Suc (Suc (length items + k)))) (RefExpr f) ?l1
        = Done (CallExpr (RefExpr f) ?as, ?fin)"
      by (simp only: end_eq)
    have "ParseCompExpr ?expr (Suc (Suc (Suc (length items + k)))) ?l0
        = Done (CallExpr (RefExpr f) ?as, ?fin)"
      using callee loop after(3) by (rule call_at_end)
    then show ?thesis
      by (simp only: fuel l0 end_eq ParseExpr.simps)
  qed
  have 6: "ParseExpr (length items + k + 4)
     (Lexer_of ([Token_Ident lf f, Token_of lp LPAREN] @ arg_tokens items
                @ [Token_Ident la a, Token_of lr RPAREN]) e)
      = Done (CallExpr (RefExpr f) ?as, Lexer_of [] e)"
  proof -
    let ?l0 = "\<lparr>current_tk = Token_Ident lf f,
        pending = Token_of lp LPAREN # arg_tokens items @ [Token_Ident la a, Token_of lr RPAREN],
        end_loc = e\<rparr>"
    let ?l1 = "\<lparr>current_tk = Token_of lp LPAREN,
        pending = arg_tokens items @ Token_Ident la a # Token_of lr RPAREN # [], end_loc = e\<rparr>"
    have l0: "Lexer_of ([Token_Ident lf f, Token_of lp LPAREN] @ arg_tokens items
                @ [Token_Ident la a, Token_of lr RPAREN]) e = ?l0"
      by (simp add: Lexer_of_def Next_def)
    have callee: "ParseTermExpr ?expr ?l0 = Done (RefExpr f, ?l1)"
      by (simp add: ParseTermExpr_def lexer_simps)
    have "ParseCallExpr_args ?expr (Suc (length items + Suc k)) [] ?l1
        = Done ([] @ map (\<lambda>x. RefExpr (fst (snd x))) items @ [RefExpr a], ?rparen)"
      using ident by (rule args_loop_plain)
    then have args: "ParseCallExpr_args ?expr (Suc (Suc (length items + k))) [] ?l1
        = Done (?as, ?rparen)"
      by simp
    have "Is (Current ?l1) LPAREN"
      by (simp add: Is_def Current_def GetToken_def Token_of_def)
    then have "ParseCallExpr_loop ?expr (Suc (Suc (Suc (length items + k)))) (RefExpr f) ?l1
        = Done (CallExpr (RefExpr f) ?as, Next ?rparen)"
      using args after(1,2) by (rule call_loop_accepts)
    then have loop: "ParseCallExpr_loop ?expr (Suc (Suc (Suc (length items + k)))) (RefExpr f) ?l1
        = Done (CallExpr (RefExpr f) ?as, ?fin)"
      by (simp only: end_eq)
    have "ParseCompExpr ?expr (Suc (Suc (Suc (length items + k)))) ?l0
        = Done (CallExpr (RefExpr f) ?as, ?fin)"
      using callee loop after(3) by (rule call_at_end)
    then show ?thesis
      by (simp only: fuel l0 end_eq ParseExpr.simps)
  qed
  have 7: "ParseExpr (k + 8)
     (Lexer_of [Token_Ident l1 f, Token_of l2 LPAREN, Token_Ident l3 a, Token_of l4 COMMA,
                Token_of l5 RPAREN] e)
   = Done (CallExpr (RefExpr f) [RefExpr a], Lexer_of [] e)"
    by (simp add: numeral_eq_Suc lexer_simps expr_simps)
  have 8: "ParseExpr (k + 8)
     (Lexer_of [Token_Ident l1 f, Token_of l2 LPAREN, Token_Ident l3 a, Token_of l5 RPAREN] e)
   = Done (CallExpr (RefExpr f) [RefExpr a], Lexer_of [] e)"
    by (simp add: numeral_eq_Suc lexer_simps expr_simps)
  have 9: "ParseCallExpr (ParseExpr (k + 7)) (k + 3)
     (Lexer_of [Token_Ident l1 f, Token_of l2 LPAREN, Token_Ident l3 a, Token_of l4 COMMA,
                Token_of l5 RPAREN] e)
   = Done (CallExpr (RefExpr f) [RefExpr a], Lexer_of [] e)"
    by (simp add: numeral_eq_Suc lexer_simps expr_simps)
  from 1 2 3 4 5 6 7 8 9 show ?thesis by blast
qed

theorem call_trailing_comma_witness:
  "ParseCallExpr_args (ParseExpr (Suc (Suc 0))) (Suc (Suc 0)) []
      \<lparr>current_tk = Token_of (at_column 4) COMMA, pending = [Token_of (at_column 5) RPAREN],
         end_loc = at_column 6\<rparr>
     = Done ([], \<lparr>current_tk = Token_of (at_column 5) RPAREN, pending = [],
                  end_loc = at_column 6\<rparr>)
   \<and> ParseCallExpr_args (ParseExpr (Suc (Suc 0))) (Suc (Suc (Suc 0))) []
      \<lparr>current_tk = Token_of (at_column 2) LPAREN,
         pending = [Token_Ident (at_column 3) ''a'', Token_of (at_column 4) COMMA,
                    Token_of (at_column 5) RPAREN],
         end_loc = at_column 6\<rparr>
     = Done ([RefExpr ''a''], \<lparr>current_tk = Token_of (at_column 5) RPAREN, pending = [],
                               end_loc = at_column 6\<rparr>)
   \<and> ParseCallExpr_args (ParseExpr (Suc (Suc 0))) (Suc (Suc 0)) []
      \<lparr>current_tk = Token_of (at_column 2) LPAREN,
         pending = [Token_Ident (at_column 3) ''a'', Token_of (at_column 5) RPAREN],
         end_loc = at_column 6\<rparr>
     = Done ([RefExpr ''a''], \<lparr>current_tk = Token_of (at_column 5) RPAREN, pending = [],
                               end_loc = at_column 6\<rparr>)
   \<and> ParseCallExpr_loop (ParseExpr (Suc (Suc 0))) (Suc (Suc (Suc 0))) (RefExpr ''f'')
      \<lparr>current_tk = Token_of (at_column 2) LPAREN,
         pending = [Token_Ident (at_column 3) ''a'', Token_of (at_column 4) COMMA,
                    Token_of (at_column 5) RPAREN],
         end_loc = at_column 6\<rparr>
     = Done (CallExpr (RefExpr ''f'') [RefExpr ''a''], Lexer_of [] (at_column 6))
   \<and> ParseExpr 5
     (Lexer_of [Token_Ident (at_column 1) ''f'', Token_of (at_column 2) LPAREN,
                Token_Ident (at_column 3) ''a'', Token_of (at_column 4) COMMA,
                Token_Ident (at_column 5) ''b'', Token_of (at_column 6) COMMA,
                Token_of (at_column 7) RPAREN] (at_column 8))
     = Done (CallExpr (RefExpr ''f'') [RefExpr ''a'', RefExpr ''b''], Lexer_of [] (at_column 8))"
  using call_trailing_comma [where expr = "ParseExpr (Suc (Suc 0))" and n = "Suc 0" and args = "[]"
      and ?lexer0.0 = "\<lparr>current_tk = Token_of (at_column 4) COMMA,
         pending = [Token_of (at_column 5) RPAREN], end_loc = at_column 6\<rparr>"
      and ?lexer1.0 = "\<lparr>current_tk = Token_of (at_column 2) LPAREN,
         pending = [Token_Ident (at_column 3) ''a'', Token_of (at_column 4) COMMA,
                    Token_of (at_column 5) RPAREN],
         end_loc = at_column 6\<rparr>"
      and x = "RefExpr ''a''"
      and lx = "\<lparr>current_tk = Token_of (at_column 4) COMMA,
         pending = [Token_of (at_column 5) RPAREN], end_loc = at_column 6\<rparr>"
      and ?lexer2.0 = "\<lparr>current_tk = Token_of (at_column 2) LPAREN,
         pending = [Token_Ident (at_column 3) ''a'', Token_of (at_column 4) COMMA,
                    Token_of (at_column 5) RPAREN],
         end_loc = at_column 6\<rparr>"
      and as = "[RefExpr ''a'']"
      and ?lx2.0 = "\<lparr>current_tk = Token_of (at_column 5) RPAREN, pending = [],
         end_loc = at_column 6\<rparr>"
      and callee = "RefExpr ''f''"
      and items = "[(at_column 3, ''a'', at_column 4)]" and k = 0
      and lf = "at_column 1" and f = "''f''" and lp = "at_column 2"
      and la = "at_column 5" and a = "''b''" and lc = "at_column 6" and lr = "at_column 7"
      and e = "at_column 8"]
    call_trailing_comma [where expr = "ParseExpr (Suc (Suc 0))" and n = "Suc 0" and args = "[]"
      and ?lexer1.0 = "\<lparr>current_tk = Token_of (at_column 2) LPAREN,
         pending = [Token_Ident (at_column 3) ''a'', Token_of (at_column 5) RPAREN],
         end_loc = at_column 6\<rparr>"
      and x = "RefExpr ''a''"
      and lx' = "\<lparr>current_tk = Token_of (at_column 5) RPAREN, pending = [],
         end_loc = at_column 6\<rparr>"]
  by (simp add: lexer_simps expr_simps arg_tokens_def numeral_eq_Suc)

end
